theory Spec2Isabelle
  imports Complex_Main "HOL-Library.Multiset"
begin

section \<open>Data model (src/types/index.ts)\<close>

text \<open>
  The stored item is the TypeScript pair \<open>{ type, item }\<close>. The static type of \<open>item\<close> is
  the envelope \<open>Item\<close>, but at run time the object also carries the fields of \<open>Task\<close> or
  \<open>Section\<close>; a field that the object does not have is \<open>None\<close> here. The static types
  require \<open>type\<close>, \<open>id\<close>, \<open>title\<close>, \<open>createdAt\<close> and \<open>updatedAt\<close>, but the objects that
  the operations build at run time can lack them (the payload of an Add has no id yet, and
  an Update or a Move that goes through an inherited property, below, stores an item that
  has only the fields it was given), so these fields are optional too. JavaScript numbers
  are modelled as \<open>int\<close> (orders, indices, minutes and timestamps are whole numbers).
\<close>

datatype item_type = TASK | SECTION

record Item =
  item_id :: "string option"
  title :: "string option"
  order :: "int option"
  createdAt :: "int option"
  updatedAt :: "int option"
  minutes :: "int option"
  assignedTo :: "string option option"
  completed :: "bool option"
  categoryId :: "string option"
  item_notes :: "string option"
  color :: "string option"
  collapsed :: "bool option"

record TaskItem =
  type :: "item_type option"
  item :: Item

text \<open>The objects \<open>{}\<close> as an envelope, and \<open>{ item: {} }\<close>.\<close>

definition empty_item :: Item where
  "empty_item = \<lparr> item_id = None, title = None, order = None, createdAt = None,
     updatedAt = None, minutes = None, assignedTo = None, completed = None,
     categoryId = None, item_notes = None, color = None, collapsed = None \<rparr>"

definition empty_task :: TaskItem where
  "empty_task = \<lparr> type = None, item = empty_item \<rparr>"

text \<open>
  The property key of an assignment \<open>r[t.item.id] = ...\<close>: the id, or the text of
  \<open>undefined\<close> when the item has none.
\<close>

definition key_of :: "TaskItem \<Rightarrow> string" where
  "key_of t = (case item_id (item t) of Some k \<Rightarrow> k | None \<Rightarrow> ''undefined'')"

text \<open>
  A JavaScript object used as a dictionary (\<open>Record<string, TaskItem>\<close>) is an association
  list of its own properties in insertion order, which is the order \<open>Object.values\<close> and
  \<open>Object.keys\<close> enumerate for keys that are not array indices (item ids are UUIDs).
  Assigning to an existing key keeps its position, assigning to a new key appends,
  \<open>delete\<close> removes an own property and does nothing for any other key. The own keys of
  a dictionary of the store are field names of the store, which does not admit
  \<open>__proto__\<close> as one.
\<close>

type_synonym 'v obj = "(string \<times> 'v) list"

definition obj_get :: "'v obj \<Rightarrow> string \<Rightarrow> 'v option" where
  "obj_get r k = map_of r k"

fun obj_set :: "string \<Rightarrow> 'v \<Rightarrow> 'v obj \<Rightarrow> 'v obj" where
  "obj_set k v [] = [(k, v)]"
| "obj_set k v ((k', v') # r) = (if k' = k then (k, v) # r else (k', v') # obj_set k v r)"

definition obj_delete :: "string \<Rightarrow> 'v obj \<Rightarrow> 'v obj" where
  "obj_delete k r = filter (\<lambda>kv. fst kv \<noteq> k) r"

definition obj_values :: "'v obj \<Rightarrow> 'v list" where
  "obj_values r = map snd r"

definition obj_keys :: "'v obj \<Rightarrow> string list" where
  "obj_keys r = map fst r"

text \<open>
  Reading \<open>r[k]\<close> follows the prototype chain. The dictionaries are plain objects, so a
  key that is not an own property but names a property of \<open>Object.prototype\<close> reads as
  the inherited value: a function, or the prototype object itself for \<open>__proto__\<close>.
  Such a value is truthy, it has no own enumerable property (spreading it gives \<open>{}\<close>)
  and no property \<open>item\<close>. Any other key that is not an own property reads as
  \<open>undefined\<close>. \<open>obj_get\<close> is the lookup among the own properties only.
\<close>

definition object_prototype_names :: "string list" where
  "object_prototype_names =
     [''constructor'', ''hasOwnProperty'', ''isPrototypeOf'', ''propertyIsEnumerable'',
      ''toLocaleString'', ''toString'', ''valueOf'', ''__defineGetter__'',
      ''__defineSetter__'', ''__lookupGetter__'', ''__lookupSetter__'', ''__proto__'']"

datatype 'v property = Own 'v | Inherited | Undefined

definition obj_read :: "'v obj \<Rightarrow> string \<Rightarrow> 'v property" where
  "obj_read r k =
     (case obj_get r k of
        Some v \<Rightarrow> Own v
      | None \<Rightarrow> if k \<in> set object_prototype_names then Inherited else Undefined)"

text \<open>
  The assignment \<open>r[k] = v\<close> under a key that is not an own property of \<open>r\<close>: it
  creates the own property, except for \<open>__proto__\<close>, where it runs the setter that
  \<open>Object.prototype\<close> provides, which replaces the prototype of \<open>r\<close> and leaves its
  own properties as they are; the document that is written afterwards holds those own
  properties.
\<close>

definition obj_assign :: "string \<Rightarrow> 'v \<Rightarrow> 'v obj \<Rightarrow> 'v obj" where
  "obj_assign k v r = (if k = ''__proto__'' then r else obj_set k v r)"

record DayPlan =
  day_id :: string
  dayOfWeek :: nat
  tasks :: "TaskItem obj"

record WeekPlan =
  plan_id :: string
  name :: string
  isTemplate :: bool
  days :: "nat \<rightharpoonup> DayPlan"
  plan_createdAt :: int
  plan_updatedAt :: int
  createdBy :: string
  collaborators :: "string list"
  partnershipId :: string

section \<open>Array helpers of the JavaScript runtime\<close>

text \<open>
  \<open>Array.prototype.sort\<close> with a comparator is a stable sort: an element moves in front of
  another only when the comparator says so. Insertion from the right, placing each element
  before the first one it does not compare greater than, is such a sort.
\<close>

fun js_insert :: "('a \<Rightarrow> 'a \<Rightarrow> int) \<Rightarrow> 'a \<Rightarrow> 'a list \<Rightarrow> 'a list" where
  "js_insert cmp x [] = [x]"
| "js_insert cmp x (y # ys) = (if cmp x y \<le> 0 then x # y # ys else y # js_insert cmp x ys)"

definition js_sort :: "('a \<Rightarrow> 'a \<Rightarrow> int) \<Rightarrow> 'a list \<Rightarrow> 'a list" where
  "js_sort cmp xs = foldr (js_insert cmp) xs []"

text \<open>
  \<open>splice(start, deleteCount, ...)\<close> clamps its start: a negative start counts from the end
  and stops at 0, a start beyond the length is the length.
\<close>

definition splice_start :: "int \<Rightarrow> nat \<Rightarrow> nat" where
  "splice_start start len =
     (if start < 0 then nat (max (int len + start) 0) else min (nat start) len)"

definition splice_insert :: "int \<Rightarrow> 'a \<Rightarrow> 'a list \<Rightarrow> 'a list" where
  "splice_insert start x xs =
     (let k = splice_start start (length xs) in take k xs @ [x] @ drop k xs)"

definition splice_remove1 :: "int \<Rightarrow> 'a list \<Rightarrow> 'a list" where
  "splice_remove1 start xs =
     (let k = splice_start start (length xs) in take k xs @ drop (Suc k) xs)"

section \<open>sortTasksByOrder (firebase/services.ts, src/unnamed/part_005)\<close>

text \<open>The comparator of \<open>taskArray.sort\<close>, branch by branch.\<close>

definition cmp_order :: "TaskItem \<Rightarrow> TaskItem \<Rightarrow> int" where
  "cmp_order a b =
     (if order (item a) \<noteq> None \<and> order (item b) \<noteq> None
        then the (order (item a)) - the (order (item b))
      else if order (item a) \<noteq> None then - 1
      else if order (item b) \<noteq> None then 1
      else 0)"

text \<open>The body of \<open>taskArray.forEach\<close>: only a missing order is set, to the position.\<close>

definition fill_order :: "nat \<Rightarrow> TaskItem \<Rightarrow> TaskItem" where
  "fill_order index task =
     (if order (item task) = None
        then task\<lparr>item := (item task)\<lparr>order := Some (int index)\<rparr>\<rparr>
      else task)"

definition orderedTaskArray :: "TaskItem list \<Rightarrow> TaskItem list" where
  "orderedTaskArray taskArray =
     map (\<lambda>(index, task). fill_order index task) (enumerate 0 (js_sort cmp_order taskArray))"

definition rebuild_tasks :: "TaskItem list \<Rightarrow> TaskItem obj" where
  "rebuild_tasks ts = foldl (\<lambda>r t. obj_set (key_of t) t r) [] ts"

definition sortTasksByOrder_day :: "DayPlan \<Rightarrow> DayPlan" where
  "sortTasksByOrder_day day =
     day\<lparr>tasks := rebuild_tasks (orderedTaskArray (obj_values (tasks day)))\<rparr>"

definition sortTasksByOrder :: "'a WeekPlan_scheme \<Rightarrow> 'a WeekPlan_scheme" where
  "sortTasksByOrder plan = plan\<lparr>days := (\<lambda>d. map_option sortTasksByOrder_day (days plan d))\<rparr>"

text \<open>
  The list stage characterised: items that have an order, and those that lack one.
\<close>

definition has_order :: "TaskItem \<Rightarrow> bool" where
  "has_order t = (order (item t) \<noteq> None)"

definition order_of :: "TaskItem \<Rightarrow> int" where
  "order_of t = the (order (item t))"

definition set_order :: "nat \<Rightarrow> TaskItem \<Rightarrow> TaskItem" where
  "set_order index t = t\<lparr>item := (item t)\<lparr>order := Some (int index)\<rparr>\<rparr>"

definition orders_exact :: "TaskItem list \<Rightarrow> bool" where
  "orders_exact xs =
     (list_all has_order xs \<and> sort (map order_of xs) = map int [0..<length xs])"

text \<open>A sample item for the concrete evaluations below.\<close>

definition mk_item :: "item_type \<Rightarrow> string \<Rightarrow> int option \<Rightarrow> TaskItem" where
  "mk_item ty i ord =
     \<lparr> type = Some ty,
       item = \<lparr> item_id = Some i, title = Some i, order = ord, createdAt = Some 1000,
                updatedAt = Some 1000,
                minutes = (if ty = TASK then Some 30 else None),
                assignedTo = (if ty = TASK then Some None else None),
                completed = (if ty = TASK then Some False else None),
                categoryId = None, item_notes = None, color = None, collapsed = None \<rparr> \<rparr>"

section \<open>Mutation operations (firebase/services.ts, src/unnamed/part_005)\<close>

text \<open>
  The errors the transaction bodies throw: \<open>new Error('Plan not found')\<close>,
  \<open>new Error('Task not found')\<close>, and the \<open>TypeError\<close> of the runtime for reading a
  property of \<open>undefined\<close>.
\<close>

datatype error = Plan_not_found | Task_not_found | Type_error

definition isAssignableItem :: "TaskItem \<Rightarrow> bool" where
  "isAssignableItem taskItem = (type taskItem = Some TASK)"

text \<open>Decimal text of a day index, for the template literal that names a new day.\<close>

fun string_of_nat :: "nat \<Rightarrow> string" where
  "string_of_nat n =
     (if n < 10 then [''0123456789'' ! n]
      else string_of_nat (n div 10) @ [''0123456789'' ! (n mod 10)])"

declare string_of_nat.simps [simp del]

definition new_day :: "string \<Rightarrow> nat \<Rightarrow> DayPlan" where
  "new_day planId d = \<lparr> day_id = planId @ ''-'' @ string_of_nat d, dayOfWeek = d, tasks = [] \<rparr>"

text \<open>The comparator \<open>(a.item.order ?? 0) - (b.item.order ?? 0)\<close>.\<close>

definition order_or_0 :: "TaskItem \<Rightarrow> int" where
  "order_or_0 t = (case order (item t) of None \<Rightarrow> 0 | Some n \<Rightarrow> n)"

definition cmp_order_or_0 :: "TaskItem \<Rightarrow> TaskItem \<Rightarrow> int" where
  "cmp_order_or_0 a b = order_or_0 a - order_or_0 b"

text \<open>
  The \<open>forEach\<close> of \<open>addTaskToDay\<close>: every item gets its index as order and is stored
  under its own id.
\<close>

definition reorder_step :: "TaskItem obj \<Rightarrow> nat \<times> TaskItem \<Rightarrow> TaskItem obj" where
  "reorder_step r p =
     (case p of (index, taskItem) \<Rightarrow>
        obj_set (key_of taskItem)
          (taskItem\<lparr>item := (item taskItem)\<lparr>order := Some (int index)\<rparr>\<rparr>) r)"

definition reorder_all :: "TaskItem list \<Rightarrow> TaskItem obj" where
  "reorder_all taskList = foldl reorder_step [] (enumerate 0 taskList)"

text \<open>
  The \<open>forEach\<close> of \<open>moveTask\<close>: as above, and the moved item gets a new \<open>updatedAt\<close>.
\<close>

definition reorder_moved_step ::
  "string \<Rightarrow> int \<Rightarrow> TaskItem obj \<Rightarrow> nat \<times> TaskItem \<Rightarrow> TaskItem obj" where
  "reorder_moved_step taskId now r p =
     (case p of (idx, t) \<Rightarrow>
        obj_set (key_of t)
          (t\<lparr>item := (item t)\<lparr>order := Some (int idx),
                updatedAt := (if item_id (item t) = Some taskId then Some now
                              else updatedAt (item t))\<rparr>\<rparr>) r)"

definition reorder_moved :: "string \<Rightarrow> int \<Rightarrow> TaskItem list \<Rightarrow> TaskItem obj" where
  "reorder_moved taskId now taskList =
     foldl (reorder_moved_step taskId now) [] (enumerate 0 taskList)"

text \<open>
  A transaction body reads the plan document (\<open>None\<close> when it does not exist) and either
  throws or returns its result with the document it writes. \<open>Date.now()\<close> readings and
  the generated id are parameters. The payload of an Add is a \<open>TaskItem\<close> whose id and
  timestamps, if it has any, are overwritten.
\<close>

definition addTaskToDay_txn ::
  "string \<Rightarrow> nat \<Rightarrow> TaskItem \<Rightarrow> int option \<Rightarrow> string \<Rightarrow> int \<Rightarrow> int \<Rightarrow> int \<Rightarrow>
   'a WeekPlan_scheme option \<Rightarrow>
   error + ((TaskItem \<times> (nat \<rightharpoonup> DayPlan)) \<times> 'a WeekPlan_scheme)" where
  "addTaskToDay_txn planId d task insertIndex taskId tCreated tUpdated tDoc planDoc =
     (case planDoc of
        None \<Rightarrow> Inl Plan_not_found
      | Some plan \<Rightarrow>
          let day = (case days plan d of Some existing \<Rightarrow> existing | None \<Rightarrow> new_day planId d);
              existingTasks = js_sort cmp_order_or_0 (obj_values (tasks day));
              targetIndex = (case insertIndex of Some i \<Rightarrow> i | None \<Rightarrow> int (length existingTasks));
              newTask = task\<lparr>item := (item task)\<lparr>item_id := Some taskId,
                          createdAt := Some tCreated, updatedAt := Some tUpdated,
                          order := Some targetIndex\<rparr>\<rparr>;
              reorderedTasks = reorder_all (splice_insert targetIndex newTask existingTasks);
              days' = (days plan)(d \<mapsto> day\<lparr>tasks := reorderedTasks\<rparr>)
          in Inr ((newTask, days'), plan\<lparr>days := days', plan_updatedAt := tDoc\<rparr>))"

text \<open>
  \<open>updates: Partial<TaskItem>\<close>: a key that the object does not carry is \<open>None\<close>, a
  key that it carries is \<open>Some\<close> of its value; the spread copies exactly the keys that
  are there.
\<close>

record ItemPatch =
  patch_item_id :: "string option option"
  patch_title :: "string option option"
  patch_order :: "int option option"
  patch_createdAt :: "int option option"
  patch_updatedAt :: "int option option"
  patch_minutes :: "int option option"
  patch_assignedTo :: "string option option option"
  patch_completed :: "bool option option"
  patch_categoryId :: "string option option"
  patch_item_notes :: "string option option"
  patch_color :: "string option option"
  patch_collapsed :: "bool option option"

record TaskItemPatch =
  patch_type :: "item_type option option"
  patch_item :: "ItemPatch option"

definition spread_field :: "'a \<Rightarrow> 'a option \<Rightarrow> 'a" where
  "spread_field old new = (case new of None \<Rightarrow> old | Some v \<Rightarrow> v)"

definition empty_patch :: ItemPatch where
  "empty_patch = \<lparr> patch_item_id = None, patch_title = None, patch_order = None,
     patch_createdAt = None, patch_updatedAt = None, patch_minutes = None,
     patch_assignedTo = None, patch_completed = None, patch_categoryId = None,
     patch_item_notes = None, patch_color = None, patch_collapsed = None \<rparr>"

definition spread_item :: "Item \<Rightarrow> ItemPatch \<Rightarrow> Item" where
  "spread_item it p =
     \<lparr> item_id = spread_field (item_id it) (patch_item_id p),
       title = spread_field (title it) (patch_title p),
       order = spread_field (order it) (patch_order p),
       createdAt = spread_field (createdAt it) (patch_createdAt p),
       updatedAt = spread_field (updatedAt it) (patch_updatedAt p),
       minutes = spread_field (minutes it) (patch_minutes p),
       assignedTo = spread_field (assignedTo it) (patch_assignedTo p),
       completed = spread_field (completed it) (patch_completed p),
       categoryId = spread_field (categoryId it) (patch_categoryId p),
       item_notes = spread_field (item_notes it) (patch_item_notes p),
       color = spread_field (color it) (patch_color p),
       collapsed = spread_field (collapsed it) (patch_collapsed p) \<rparr>"

text \<open>
  \<open>updateTask\<close>. The guard \<open>!day.tasks[taskId]\<close> tests the value read for truthiness,
  so it throws only when the read gives \<open>undefined\<close>. On an inherited value the spread of
  \<open>currentTask\<close> and of \<open>currentTask.item\<close> contribute nothing, and the item built from
  the updates alone is assigned under \<open>taskId\<close>.
\<close>

definition updateTask_txn ::
  "nat \<Rightarrow> string \<Rightarrow> TaskItemPatch \<Rightarrow> int \<Rightarrow> int \<Rightarrow>
   'a WeekPlan_scheme option \<Rightarrow> error + (unit \<times> 'a WeekPlan_scheme)" where
  "updateTask_txn d taskId updates tItem tDoc planDoc =
     (case planDoc of
        None \<Rightarrow> Inl Plan_not_found
      | Some plan \<Rightarrow>
          (case days plan d of
             None \<Rightarrow> Inl Task_not_found
           | Some day \<Rightarrow>
               (case obj_read (tasks day) taskId of
                  Undefined \<Rightarrow> Inl Task_not_found
                | Inherited \<Rightarrow>
                    let updatedTask =
                          \<lparr> type = spread_field (type empty_task) (patch_type updates),
                            item = (spread_item empty_item
                                      (case patch_item updates of Some p \<Rightarrow> p | None \<Rightarrow> empty_patch))
                                   \<lparr>updatedAt := Some tItem\<rparr> \<rparr>;
                        day' = day\<lparr>tasks := obj_assign taskId updatedTask (tasks day)\<rparr>
                    in Inr ((), plan\<lparr>days := (days plan)(d \<mapsto> day'), plan_updatedAt := tDoc\<rparr>)
                | Own currentTask \<Rightarrow>
                    let updatedTask =
                          \<lparr> type = spread_field (type currentTask) (patch_type updates),
                            item = (spread_item (item currentTask)
                                      (case patch_item updates of Some p \<Rightarrow> p | None \<Rightarrow> empty_patch))
                                   \<lparr>updatedAt := Some tItem\<rparr> \<rparr>;
                        day' = day\<lparr>tasks := obj_set taskId updatedTask (tasks day)\<rparr>
                    in Inr ((), plan\<lparr>days := (days plan)(d \<mapsto> day'), plan_updatedAt := tDoc\<rparr>))))"

text \<open>
  \<open>deleteTask\<close>. The same guard: it throws only when the read gives \<open>undefined\<close>. After
  it, \<open>delete day.tasks[taskId]\<close> removes the own property if there is one.
\<close>

definition deleteTask_txn ::
  "nat \<Rightarrow> string \<Rightarrow> int \<Rightarrow> 'a WeekPlan_scheme option \<Rightarrow> error + (unit \<times> 'a WeekPlan_scheme)" where
  "deleteTask_txn d taskId tDoc planDoc =
     (case planDoc of
        None \<Rightarrow> Inl Plan_not_found
      | Some plan \<Rightarrow>
          (case days plan d of
             None \<Rightarrow> Inl Task_not_found
           | Some day \<Rightarrow>
               (case obj_read (tasks day) taskId of
                  Undefined \<Rightarrow> Inl Task_not_found
                | _ \<Rightarrow>
                    let remaining = obj_delete taskId (tasks day);
                        days' = (if length (obj_keys remaining) = 0
                                 then (days plan)(d := None)
                                 else (days plan)(d \<mapsto> day\<lparr>tasks := remaining\<rparr>))
                    in Inr ((), plan\<lparr>days := days', plan_updatedAt := tDoc\<rparr>))))"

text \<open>
  \<open>moveTask\<close>. \<open>assignToUser\<close> is \<open>None\<close> when the argument is undefined,
  \<open>Some None\<close> for null. Deleting from \<open>sourceDay.tasks\<close> changes the object that
  \<open>days[sourceDayOfWeek]\<close> holds, so the target day is read after the deletion; when both
  indices name the same day the last assignment to \<open>days\<close> wins.

  The same guard again. On an inherited value, \<open>task\<close> is the copy \<open>{}\<close>: it has no
  \<open>type\<close>, so no assignee is set, and no \<open>item\<close>. With a target index (in either
  branch) \<open>task\<close> is spliced into the list and the renumbering throws a \<open>TypeError\<close> at
  \<open>t.item.id\<close>, before anything is written. Without a target index nothing is deleted
  from the source (the key is not an own property), \<open>task.item\<close> becomes
  \<open>{ order: count }\<close> and \<open>task\<close> is assigned under \<open>taskId\<close> in the target.
\<close>

definition moveTask_txn ::
  "string \<Rightarrow> nat \<Rightarrow> nat \<Rightarrow> string \<Rightarrow> string option option \<Rightarrow> int option \<Rightarrow> int option \<Rightarrow>
   int \<Rightarrow> int \<Rightarrow> int \<Rightarrow> 'a WeekPlan_scheme option \<Rightarrow> error + (unit \<times> 'a WeekPlan_scheme)" where
  "moveTask_txn planId sourceDayOfWeek targetDayOfWeek taskId assignToUser sourceIndex targetIndex
      tAssign tMoved tDoc planDoc =
     (case planDoc of
        None \<Rightarrow> Inl Plan_not_found
      | Some plan \<Rightarrow>
          (case days plan sourceDayOfWeek of
             None \<Rightarrow> Inl Task_not_found
           | Some sourceDay \<Rightarrow>
               (case obj_read (tasks sourceDay) taskId of
                  Undefined \<Rightarrow> Inl Task_not_found
                | Inherited \<Rightarrow>
                    if targetIndex \<noteq> None then Inl Type_error
                    else
                      let sourceDay' = sourceDay\<lparr>tasks := obj_delete taskId (tasks sourceDay)\<rparr>;
                          days1 = (days plan)(sourceDayOfWeek \<mapsto> sourceDay');
                          targetDay = (case days1 targetDayOfWeek of
                                         Some existing \<Rightarrow> existing
                                       | None \<Rightarrow> new_day planId targetDayOfWeek);
                          task = empty_task\<lparr>item := empty_item\<lparr>order :=
                                   Some (int (length (obj_keys (tasks targetDay))))\<rparr>\<rparr>;
                          targetDay' = targetDay\<lparr>tasks := obj_assign taskId task (tasks targetDay)\<rparr>
                      in Inr ((), plan\<lparr>days := days1(targetDayOfWeek \<mapsto> targetDay'),
                                     plan_updatedAt := tDoc\<rparr>)
                | Own found \<Rightarrow>
                    let task = (if assignToUser \<noteq> None \<and> isAssignableItem found
                                then found\<lparr>item := (item found)\<lparr>assignedTo := Some (the assignToUser),
                                              updatedAt := Some tAssign\<rparr>\<rparr>
                                else found);
                        days' =
                          (if sourceDayOfWeek = targetDayOfWeek \<and> sourceIndex \<noteq> None
                              \<and> targetIndex \<noteq> None
                           then
                             let taskList = js_sort cmp_order_or_0 (obj_values (tasks sourceDay));
                                 removed = splice_remove1 (the sourceIndex) taskList;
                                 inserted = splice_insert (the targetIndex) task removed
                             in (days plan)(sourceDayOfWeek \<mapsto>
                                   sourceDay\<lparr>tasks := reorder_moved taskId tMoved inserted\<rparr>)
                           else
                             let sourceDay' = sourceDay\<lparr>tasks := obj_delete taskId (tasks sourceDay)\<rparr>;
                                 days1 = (days plan)(sourceDayOfWeek \<mapsto> sourceDay');
                                 targetDay = (case days1 targetDayOfWeek of
                                                Some existing \<Rightarrow> existing
                                              | None \<Rightarrow> new_day planId targetDayOfWeek);
                                 targetDay' =
                                   (case targetIndex of
                                      Some ti \<Rightarrow>
                                        targetDay\<lparr>tasks := reorder_moved taskId tMoved
                                          (splice_insert ti task
                                             (js_sort cmp_order_or_0 (obj_values (tasks targetDay))))\<rparr>
                                    | None \<Rightarrow>
                                        targetDay\<lparr>tasks := obj_set taskId
                                          (task\<lparr>item := (item task)\<lparr>order :=
                                              Some (int (length (obj_keys (tasks targetDay))))\<rparr>\<rparr>)
                                          (tasks targetDay)\<rparr>)
                             in days1(targetDayOfWeek \<mapsto> targetDay'))
                    in Inr ((), plan\<lparr>days := days', plan_updatedAt := tDoc\<rparr>))))"

section \<open>Transactions and the retry loop\<close>

text \<open>
  The store holds the plan documents of one collection by id. \<open>runTransaction\<close> runs the
  body on the document it reads and commits what the body writes; a body that throws
  writes nothing.
\<close>

definition runTransaction ::
  "string \<Rightarrow> ('p option \<Rightarrow> 'e + ('r \<times> 'p)) \<Rightarrow> (string \<rightharpoonup> 'p) \<Rightarrow> ('e + 'r) \<times> (string \<rightharpoonup> 'p)" where
  "runTransaction ref body store =
     (case body (store ref) of
        Inl e \<Rightarrow> (Inl e, store)
      | Inr (r, doc) \<Rightarrow> (Inr r, store(ref \<mapsto> doc)))"

text \<open>
  \<open>runWithRetry\<close>: the loop calls \<open>fn\<close> until it returns or \<open>maxRetries\<close> attempts have
  thrown; every caught error is logged with \<open>console.warn\<close> under its attempt number and
  kept as \<open>lastError\<close>, which is thrown at the end (\<open>None\<close> is JavaScript's undefined,
  thrown when the loop never ran). \<open>fn\<close> acts on the state of the world it runs in. The
  result is what is returned or thrown, the warnings logged, and the final state.
\<close>

fun runWithRetry_loop ::
  "('s \<Rightarrow> ('e + 'a) \<times> 's) \<Rightarrow> nat \<Rightarrow> nat \<Rightarrow> 'e option \<Rightarrow> (nat \<times> 'e) list \<Rightarrow> 's \<Rightarrow>
   ('e option + 'a) \<times> (nat \<times> 'e) list \<times> 's" where
  "runWithRetry_loop fn attempt 0 lastError warned s = (Inl lastError, warned, s)"
| "runWithRetry_loop fn attempt (Suc left) lastError warned s =
     (case fn s of
        (Inr v, s') \<Rightarrow> (Inr v, warned, s')
      | (Inl e, s') \<Rightarrow>
          runWithRetry_loop fn (attempt + 1) left (Some e) (warned @ [(attempt + 1, e)]) s')"

definition runWithRetry ::
  "('s \<Rightarrow> ('e + 'a) \<times> 's) \<Rightarrow> nat \<Rightarrow> 's \<Rightarrow> ('e option + 'a) \<times> (nat \<times> 'e) list \<times> 's" where
  "runWithRetry fn maxRetries s = runWithRetry_loop fn 0 maxRetries None [] s"

definition default_maxRetries :: nat where
  "default_maxRetries = 5"

text \<open>
  The four operations as exported: the transaction under the retry loop
  with its default limit, on the collection that \<open>getPlanCollection(isTemplate)\<close> selects
  (templates hold \<open>WeekPlan\<close> documents, execution plans the extension \<open>ExecutionPlan\<close>).
  No other writer acts between the attempts, and every attempt gets the same clock
  readings; the delay between attempts is not modelled.
\<close>

definition addTaskToDay ::
  "string \<Rightarrow> nat \<Rightarrow> TaskItem \<Rightarrow> int option \<Rightarrow> string \<Rightarrow> int \<Rightarrow> int \<Rightarrow> int \<Rightarrow>
   (string \<rightharpoonup> 'a WeekPlan_scheme) \<Rightarrow>
   (error option + (TaskItem \<times> (nat \<rightharpoonup> DayPlan))) \<times> (nat \<times> error) list \<times>
   (string \<rightharpoonup> 'a WeekPlan_scheme)" where
  "addTaskToDay planId d task insertIndex taskId tCreated tUpdated tDoc collection =
     runWithRetry
       (runTransaction planId
          (addTaskToDay_txn planId d task insertIndex taskId tCreated tUpdated tDoc))
       default_maxRetries collection"

definition deleteTask ::
  "string \<Rightarrow> nat \<Rightarrow> string \<Rightarrow> int \<Rightarrow> (string \<rightharpoonup> 'a WeekPlan_scheme) \<Rightarrow>
   (error option + unit) \<times> (nat \<times> error) list \<times> (string \<rightharpoonup> 'a WeekPlan_scheme)" where
  "deleteTask planId d taskId tDoc collection =
     runWithRetry (runTransaction planId (deleteTask_txn d taskId tDoc))
       default_maxRetries collection"

definition updateTask ::
  "string \<Rightarrow> nat \<Rightarrow> string \<Rightarrow> TaskItemPatch \<Rightarrow> int \<Rightarrow> int \<Rightarrow>
   (string \<rightharpoonup> 'a WeekPlan_scheme) \<Rightarrow>
   (error option + unit) \<times> (nat \<times> error) list \<times> (string \<rightharpoonup> 'a WeekPlan_scheme)" where
  "updateTask planId d taskId updates tItem tDoc collection =
     runWithRetry (runTransaction planId (updateTask_txn d taskId updates tItem tDoc))
       default_maxRetries collection"

definition moveTask ::
  "string \<Rightarrow> nat \<Rightarrow> nat \<Rightarrow> string \<Rightarrow> string option option \<Rightarrow> int option \<Rightarrow> int option \<Rightarrow>
   int \<Rightarrow> int \<Rightarrow> int \<Rightarrow> (string \<rightharpoonup> 'a WeekPlan_scheme) \<Rightarrow>
   (error option + unit) \<times> (nat \<times> error) list \<times> (string \<rightharpoonup> 'a WeekPlan_scheme)" where
  "moveTask planId sourceDayOfWeek targetDayOfWeek taskId assignToUser sourceIndex targetIndex
      tAssign tMoved tDoc collection =
     runWithRetry
       (runTransaction planId
          (moveTask_txn planId sourceDayOfWeek targetDayOfWeek taskId assignToUser sourceIndex
             targetIndex tAssign tMoved tDoc))
       default_maxRetries collection"

text \<open>
  The run of a retry loop, for the statements about it: the state in which attempt \<open>k\<close>
  (counted from 0) starts, what that attempt returns or throws, the error of an attempt
  that throws, and the warnings that the first \<open>n\<close> attempts log.
\<close>

primrec state_before :: "('s \<Rightarrow> ('e + 'a) \<times> 's) \<Rightarrow> 's \<Rightarrow> nat \<Rightarrow> 's" where
  "state_before fn s 0 = s"
| "state_before fn s (Suc k) = snd (fn (state_before fn s k))"

definition attempt_outcome :: "('s \<Rightarrow> ('e + 'a) \<times> 's) \<Rightarrow> 's \<Rightarrow> nat \<Rightarrow> 'e + 'a" where
  "attempt_outcome fn s k = fst (fn (state_before fn s k))"

definition error_of :: "'e + 'a \<Rightarrow> 'e option" where
  "error_of r = (case r of Inl e \<Rightarrow> Some e | Inr _ \<Rightarrow> None)"

definition logged :: "('s \<Rightarrow> ('e + 'a) \<times> 's) \<Rightarrow> 's \<Rightarrow> nat \<Rightarrow> (nat \<times> 'e) list" where
  "logged fn s n =
     concat (map (\<lambda>k. case attempt_outcome fn s k of Inl e \<Rightarrow> [(k + 1, e)] | Inr _ \<Rightarrow> [])
               [0..<n])"

text \<open>The warnings of five attempts that throw the same error.\<close>

definition logged_five :: "'e \<Rightarrow> (nat \<times> 'e) list" where
  "logged_five e = [(1, e), (2, e), (3, e), (4, e), (5, e)]"

text \<open>
  A sample function for the retry loop: its first call throws one error, its second call
  another, every later call returns; the state counts the calls.
\<close>

definition flaky :: "nat \<Rightarrow> (string + bool) \<times> nat" where
  "flaky calls =
     (if calls = 0 then (Inl ''aborted'', 1)
      else if calls = 1 then (Inl ''unavailable'', 2)
      else (Inr True, calls + 1))"

section \<open>Observations on plans, and sample data\<close>

definition lookup_item :: "'a WeekPlan_scheme \<Rightarrow> nat \<Rightarrow> string \<Rightarrow> TaskItem option" where
  "lookup_item plan d k = (case days plan d of None \<Rightarrow> None | Some day \<Rightarrow> obj_get (tasks day) k)"

text \<open>The item stored under a key of a day of a plan of the collection.\<close>

definition stored_item ::
  "(string \<rightharpoonup> 'a WeekPlan_scheme) \<Rightarrow> string \<Rightarrow> nat \<Rightarrow> string \<Rightarrow> TaskItem option" where
  "stored_item collection planId d k =
     (case collection planId of None \<Rightarrow> None | Some plan \<Rightarrow> lookup_item plan d k)"

definition bucket_items :: "'a WeekPlan_scheme \<Rightarrow> nat \<Rightarrow> TaskItem list" where
  "bucket_items plan d = (case days plan d of None \<Rightarrow> [] | Some day \<Rightarrow> obj_values (tasks day))"

definition written :: "'e + ('r \<times> 'p) \<Rightarrow> 'p option" where
  "written r = (case r of Inl _ \<Rightarrow> None | Inr (_, p) \<Rightarrow> Some p)"

definition sample_day :: "nat \<Rightarrow> TaskItem list \<Rightarrow> DayPlan" where
  "sample_day d ts =
     \<lparr> day_id = ''day'' @ string_of_nat d, dayOfWeek = d,
       tasks = map (\<lambda>t. (key_of t, t)) ts \<rparr>"

definition sample_plan :: "(nat \<rightharpoonup> DayPlan) \<Rightarrow> WeekPlan" where
  "sample_plan ds =
     \<lparr> plan_id = ''plan123'', name = ''Test Plan'', isTemplate = True, days = ds,
       plan_createdAt = 1000, plan_updatedAt = 1000, createdBy = ''user123'',
       collaborators = [''user123''], partnershipId = ''partnership123'' \<rparr>"

text \<open>Day 1 holds the tasks a (order 0) and b (order 1).\<close>

definition day_ab :: DayPlan where
  "day_ab = sample_day 1 [mk_item TASK ''a'' (Some 0), mk_item TASK ''b'' (Some 1)]"

definition plan_ab :: WeekPlan where
  "plan_ab = sample_plan [1 \<mapsto> day_ab]"

text \<open>Day 1 holds the single task a; day 2 is absent.\<close>

definition day_a :: DayPlan where
  "day_a = sample_day 1 [mk_item TASK ''a'' (Some 0)]"

definition plan_a :: WeekPlan where
  "plan_a = sample_plan [1 \<mapsto> day_a]"

text \<open>Day 0 holds the section s and the task t; day 1 holds the task u.\<close>

definition plan_s :: WeekPlan where
  "plan_s = sample_plan
     [0 \<mapsto> sample_day 0 [mk_item SECTION ''s'' (Some 0), mk_item TASK ''t'' (Some 1)],
      1 \<mapsto> sample_day 1 [mk_item TASK ''u'' (Some 0)]]"

definition stored_order :: "'a WeekPlan_scheme \<Rightarrow> nat \<Rightarrow> string \<Rightarrow> int option" where
  "stored_order plan d k = (case lookup_item plan d k of None \<Rightarrow> None | Some t \<Rightarrow> order (item t))"

definition order_after :: "'e + ('r \<times> 'a WeekPlan_scheme) \<Rightarrow> nat \<Rightarrow> string \<Rightarrow> int option" where
  "order_after r d k = (case written r of None \<Rightarrow> None | Some plan \<Rightarrow> stored_order plan d k)"



text \<open>
  Well-formed buckets: the keys are distinct and each entry is stored under its own item
  id. \<open>bucket\<close> is the dictionary of a day, empty when the day is absent.
\<close>

definition bucket_ok :: "TaskItem obj \<Rightarrow> bool" where
  "bucket_ok r =
     (distinct (obj_keys r) \<and> list_all (\<lambda>kv. item_id (item (snd kv)) = Some (fst kv)) r)"

definition bucket :: "'a WeekPlan_scheme \<Rightarrow> nat \<Rightarrow> TaskItem obj" where
  "bucket plan d = (case days plan d of None \<Rightarrow> [] | Some day \<Rightarrow> tasks day)"


definition items_after :: "'e + ('r \<times> 'a WeekPlan_scheme) \<Rightarrow> nat \<Rightarrow> TaskItem list" where
  "items_after r d = (case written r of None \<Rightarrow> [] | Some plan \<Rightarrow> bucket_items plan d)"


section \<open>Metrics (services/TaskService.ts)\<close>

text \<open>
  The metrics read three fields of a \<open>Task\<close>: the assignee (\<open>None\<close> is null), the
  completion flag and the minutes. Quotients are exact rationals here; JavaScript rounds
  them to doubles.
\<close>

record Task =
  task_assignedTo :: "string option"
  task_completed :: bool
  task_minutes :: int

record TaskService =
  userId :: string
  partnerId :: string

datatype owner = Owner_user | Owner_partner | Owner_unassigned

definition filterTasksByOwner :: "TaskService \<Rightarrow> Task list \<Rightarrow> owner \<Rightarrow> Task list" where
  "filterTasksByOwner svc tasks_in who =
     (case who of
        Owner_user \<Rightarrow> filter (\<lambda>task. task_assignedTo task = Some (userId svc)) tasks_in
      | Owner_partner \<Rightarrow> filter (\<lambda>task. task_assignedTo task = Some (partnerId svc)) tasks_in
      | Owner_unassigned \<Rightarrow> filter (\<lambda>task. task_assignedTo task = None) tasks_in)"

record TaskMetrics =
  totalTasks :: nat
  completedTasks :: nat
  totalMinutes :: int
  remainingMinutes :: int
  completionRate :: rat
  hoursTotal :: rat
  hoursRemaining :: rat

definition calculateTaskMetrics :: "Task list \<Rightarrow> TaskMetrics" where
  "calculateTaskMetrics tasks_in =
     (let total = length tasks_in;
          finished = length (filter (\<lambda>task. task_completed task) tasks_in);
          minutes_all = foldl (\<lambda>acc task. acc + task_minutes task) 0 tasks_in;
          minutes_left = foldl (\<lambda>acc task. acc + task_minutes task) 0
                           (filter (\<lambda>task. \<not> task_completed task) tasks_in)
      in \<lparr> totalTasks = total,
           completedTasks = finished,
           totalMinutes = minutes_all,
           remainingMinutes = minutes_left,
           completionRate = (if total > 0 then of_nat finished / of_nat total else 0),
           hoursTotal = of_int minutes_all / 60,
           hoursRemaining = of_int minutes_left / 60 \<rparr>)"

record OwnerMetrics =
  metrics_user :: TaskMetrics
  metrics_partner :: TaskMetrics
  metrics_unassigned :: TaskMetrics
  metrics_all :: TaskMetrics

definition calculateTaskMetricsByOwner :: "TaskService \<Rightarrow> Task list \<Rightarrow> OwnerMetrics" where
  "calculateTaskMetricsByOwner svc tasks_in =
     \<lparr> metrics_user = calculateTaskMetrics (filterTasksByOwner svc tasks_in Owner_user),
       metrics_partner = calculateTaskMetrics (filterTasksByOwner svc tasks_in Owner_partner),
       metrics_unassigned = calculateTaskMetrics (filterTasksByOwner svc tasks_in Owner_unassigned),
       metrics_all = calculateTaskMetrics tasks_in \<rparr>"

text \<open>The three groups in the words of the specification, and a sample.\<close>

definition group_of :: "string option \<Rightarrow> Task list \<Rightarrow> Task list" where
  "group_of assignee ts = [t \<leftarrow> ts. task_assignedTo t = assignee]"

definition sample_tasks :: "Task list" where
  "sample_tasks =
     [\<lparr> task_assignedTo = Some ''A'', task_completed = True, task_minutes = 30 \<rparr>,
      \<lparr> task_assignedTo = Some ''B'', task_completed = False, task_minutes = 45 \<rparr>,
      \<lparr> task_assignedTo = None, task_completed = False, task_minutes = 15 \<rparr>,
      \<lparr> task_assignedTo = Some ''A'', task_completed = False, task_minutes = 20 \<rparr>]"

text \<open>
  What the specification asks of one group: its size, the number of completed tasks, the
  sum of the minutes, the sum of the minutes of the tasks not completed, and the rate.
\<close>

definition group_metrics_spec :: "Task list \<Rightarrow> TaskMetrics" where
  "group_metrics_spec g =
     \<lparr> totalTasks = length g,
       completedTasks = length [t \<leftarrow> g. task_completed t],
       totalMinutes = sum_list (map task_minutes g),
       remainingMinutes = sum_list (map task_minutes [t \<leftarrow> g. \<not> task_completed t]),
       completionRate =
         (if g = [] then 0 else of_nat (length [t \<leftarrow> g. task_completed t]) / of_nat (length g)),
       hoursTotal = of_int (sum_list (map task_minutes g)) / 60,
       hoursRemaining = of_int (sum_list (map task_minutes [t \<leftarrow> g. \<not> task_completed t])) / 60 \<rparr>"

text \<open>
  The day of the repository's test of \<open>sortTasksByOrder\<close>: orders 2, 0 and a missing one.
\<close>

definition day_unordered :: DayPlan where
  "day_unordered = sample_day 1
     [mk_item TASK ''task1'' (Some 2), mk_item TASK ''task2'' (Some 0), mk_item TASK ''task3'' None]"

text \<open>A day that holds a with order 5 and b without an order.\<close>

definition day_gap :: DayPlan where
  "day_gap = sample_day 1 [mk_item TASK ''a'' (Some 5), mk_item TASK ''b'' None]"

definition id_and_order :: "TaskItem \<Rightarrow> string \<times> int option" where
  "id_and_order t = (key_of t, order (item t))"


section \<open>Unfolding rules for the evaluations\<close>

lemmas sample_defs =
  plan_ab_def plan_a_def plan_s_def day_ab_def day_a_def sample_plan_def sample_day_def mk_item_def
  key_of_def

lemmas observer_defs =
  written_def items_after_def bucket_items_def bucket_def lookup_item_def stored_order_def
  order_after_def obj_values_def obj_keys_def obj_get_def obj_delete_def obj_read_def
  object_prototype_names_def obj_assign_def

lemmas run_defs =
  js_sort_def cmp_order_or_0_def order_or_0_def splice_insert_def splice_remove1_def
  splice_start_def reorder_all_def reorder_step_def reorder_moved_def reorder_moved_step_def
  isAssignableItem_def


section \<open>Properties of sortTasksByOrder\<close>

lemma js_insert_with_order:
  assumes "has_order x" "\<forall>t\<in>set A. has_order t" "\<forall>t\<in>set B. \<not> has_order t"
  shows "js_insert cmp_order x (A @ B) = insort_key order_of x A @ B"
  using assms
proof (induction A)
  case Nil
  then show ?case by (cases B) (simp_all add: cmp_order_def has_order_def)
next
  case (Cons a A)
  then show ?case by (auto simp add: cmp_order_def has_order_def order_of_def)
qed

lemma js_insert_without_order:
  assumes "\<not> has_order x" "\<forall>t\<in>set A. has_order t" "\<forall>t\<in>set B. \<not> has_order t"
  shows "js_insert cmp_order x (A @ B) = A @ x # B"
  using assms
proof (induction A)
  case Nil
  then show ?case by (cases B) (simp_all add: cmp_order_def has_order_def)
next
  case (Cons a A)
  then show ?case by (auto simp add: cmp_order_def has_order_def)
qed

lemma js_sort_cmp_order:
  "js_sort cmp_order xs =
     sort_key order_of (filter has_order xs) @ filter (\<lambda>t. \<not> has_order t) xs"
proof (induction xs)
  case Nil
  show ?case by (simp add: js_sort_def)
next
  case (Cons x xs)
  have step: "js_sort cmp_order (x # xs) = js_insert cmp_order x (js_sort cmp_order xs)"
    by (simp add: js_sort_def)
  show ?case
  proof (cases "has_order x")
    case True
    then show ?thesis
      unfolding step Cons.IH by (subst js_insert_with_order) auto
  next
    case False
    then show ?thesis
      unfolding step Cons.IH by (subst js_insert_without_order) auto
  qed
qed

lemma fill_order_keeps:
  "\<forall>t\<in>set A. has_order t \<Longrightarrow>
     map (\<lambda>(index, task). fill_order index task) (enumerate n A) = A"
  by (induction A arbitrary: n) (auto simp: fill_order_def has_order_def)

lemma fill_order_sets:
  "\<forall>t\<in>set B. \<not> has_order t \<Longrightarrow>
     map (\<lambda>(index, task). fill_order index task) (enumerate n B) =
     map (\<lambda>(i, t). set_order i t) (enumerate n B)"
  by (induction B arbitrary: n) (auto simp: fill_order_def has_order_def set_order_def)

lemma enumerate_append: "enumerate n (A @ B) = enumerate n A @ enumerate (n + length A) B"
  by (induction A arbitrary: n) auto

lemma orderedTaskArray_eq:
  "orderedTaskArray xs =
     sort_key order_of (filter has_order xs) @
     map (\<lambda>(i, t). set_order i t)
       (enumerate (length (filter has_order xs)) (filter (\<lambda>t. \<not> has_order t) xs))"
  unfolding orderedTaskArray_def js_sort_cmp_order enumerate_append map_append
  by (simp add: fill_order_keeps fill_order_sets)

lemma orderedTaskArray_all_ordered:
  "list_all has_order xs \<Longrightarrow> orderedTaskArray xs = sort_key order_of xs"
  unfolding orderedTaskArray_eq by (simp add: list_all_iff)

lemma orderedTaskArray_twice:
  assumes "orders_exact xs"
  shows "orderedTaskArray (orderedTaskArray xs) = orderedTaskArray xs"
proof -
  from assms have h: "list_all has_order xs"
    by (simp add: orders_exact_def)
  then have h2: "list_all has_order (sort_key order_of xs)"
    by (simp add: list_all_iff)
  show ?thesis
    by (simp add: orderedTaskArray_all_ordered[OF h] orderedTaskArray_all_ordered[OF h2]
        sort_key_id_if_sorted)
qed

section \<open>Properties of the dictionary operations\<close>

lemma obj_get_None_iff: "obj_get r k = None \<longleftrightarrow> k \<notin> set (obj_keys r)"
  by (simp add: obj_get_def obj_keys_def map_of_eq_None_iff)

lemma obj_get_obj_set: "obj_get (obj_set k v r) k' = (if k' = k then Some v else obj_get r k')"
  by (induction r) (auto simp: obj_get_def)



section \<open>Delete and Update\<close>

lemma runWithRetry_first_success:
  "fn s = (Inr v, s') \<Longrightarrow> runWithRetry fn (Suc n) s = (Inr v, [], s')"
  by (simp add: runWithRetry_def)

lemma obj_read_own: "obj_get r k = Some v \<Longrightarrow> obj_read r k = Own v"
  by (simp add: obj_read_def)

text \<open>
  Delete of an item that is in the bucket, as exported: the first attempt commits a plan in
  which every other day is as before and the day's bucket holds exactly the other entries,
  each untouched and in the same sequence (so no order value changes); when no entry is
  left the day's key is gone.
\<close>

lemma deleteTask_removes_present_item:
  assumes "collection planId = Some plan" and "days plan d = Some day"
    and "taskId \<in> set (obj_keys (tasks day))"
  shows "\<exists>plan'. deleteTask planId d taskId tDoc collection
                    = (Inr (), [], collection(planId \<mapsto> plan')) \<and>
           (\<forall>d'. d' \<noteq> d \<longrightarrow> days plan' d' = days plan d') \<and>
           (if filter (\<lambda>kv. fst kv \<noteq> taskId) (tasks day) = [] then days plan' d = None
            else days plan' d =
                   Some (day\<lparr>tasks := filter (\<lambda>kv. fst kv \<noteq> taskId) (tasks day)\<rparr>))"
proof -
  from assms(3) obtain t where t: "obj_get (tasks day) taskId = Some t"
    using obj_get_None_iff[of "tasks day" taskId] by auto
  define days' where "days' =
     (if filter (\<lambda>kv. fst kv \<noteq> taskId) (tasks day) = [] then (days plan)(d := None)
      else (days plan)(d \<mapsto> day\<lparr>tasks := filter (\<lambda>kv. fst kv \<noteq> taskId) (tasks day)\<rparr>))"
  define plan' where "plan' = plan\<lparr>days := days', plan_updatedAt := tDoc\<rparr>"
  have body: "deleteTask_txn d taskId tDoc (Some plan) = Inr ((), plan')"
    by (simp add: deleteTask_txn_def assms(2) obj_read_own[OF t] obj_delete_def obj_keys_def
        Let_def plan'_def days'_def)
  have "runTransaction planId (deleteTask_txn d taskId tDoc) collection
          = (Inr (), collection(planId \<mapsto> plan'))"
    by (simp add: runTransaction_def assms(1) body)
  then have "deleteTask planId d taskId tDoc collection = (Inr (), [], collection(planId \<mapsto> plan'))"
    unfolding deleteTask_def default_maxRetries_def
    using runWithRetry_first_success[where n = 4] by (simp add: eval_nat_numeral)
  moreover have "\<forall>d'. d' \<noteq> d \<longrightarrow> days plan' d' = days plan d'"
    by (simp add: plan'_def days'_def)
  moreover have "if filter (\<lambda>kv. fst kv \<noteq> taskId) (tasks day) = [] then days plan' d = None
            else days plan' d =
                   Some (day\<lparr>tasks := filter (\<lambda>kv. fst kv \<noteq> taskId) (tasks day)\<rparr>)"
    by (simp add: plan'_def days'_def)
  ultimately show ?thesis by blast
qed

text \<open>
  Delete under a name that every object inherits never fails with 'Task not found' when
  the day is present: the first attempt commits a plan.
\<close>

lemma deleteTask_never_rejects_inherited_names:
  assumes "collection planId = Some plan" and "days plan d = Some day"
    and "taskId \<in> set object_prototype_names"
  shows "\<exists>plan'. deleteTask planId d taskId tDoc collection
                    = (Inr (), [], collection(planId \<mapsto> plan'))"
proof -
  have "obj_read (tasks day) taskId \<noteq> Undefined"
    using assms(3) by (simp add: obj_read_def split: option.splits)
  then obtain plan' where body: "deleteTask_txn d taskId tDoc (Some plan) = Inr ((), plan')"
    by (cases "obj_read (tasks day) taskId") (simp_all add: deleteTask_txn_def assms(2) Let_def)
  have "runTransaction planId (deleteTask_txn d taskId tDoc) collection
          = (Inr (), collection(planId \<mapsto> plan'))"
    by (simp add: runTransaction_def assms(1) body)
  then have "deleteTask planId d taskId tDoc collection = (Inr (), [], collection(planId \<mapsto> plan'))"
    unfolding deleteTask_def default_maxRetries_def
    using runWithRetry_first_success[where n = 4] by (simp add: eval_nat_numeral)
  then show ?thesis by blast
qed

text \<open>
  Claim C6 against the code, at an absent id. The guard of \<open>deleteTask\<close> tests the value
  read under the id for truthiness, so an id that is absent from the bucket but names a
  property that every object inherits, such as \<open>toString\<close>, passes it. Day 1 holds a and
  b. Delete of \<open>toString\<close> does not fail with 'Task not found': its first attempt commits
  (no entry is removed, the plan document gets the new \<open>updatedAt\<close>) and Delete returns.
  Delete of the absent id \<open>zz\<close> on the same plan fails with 'Task not found', after five
  attempts, and leaves the store as it was.
\<close>

theorem deleteTask_commits_on_inherited_name:
  "lookup_item plan_ab 1 ''toString'' = None \<and>
   deleteTask ''plan123'' 1 ''toString'' 2000 [''plan123'' \<mapsto> plan_ab]
     = (Inr (), [], [''plan123'' \<mapsto> plan_ab\<lparr>plan_updatedAt := 2000\<rparr>]) \<and>
   lookup_item plan_ab 1 ''zz'' = None \<and>
   deleteTask ''plan123'' 1 ''zz'' 2000 [''plan123'' \<mapsto> plan_ab]
     = (Inl (Some Task_not_found),
        [(1, Task_not_found), (2, Task_not_found), (3, Task_not_found), (4, Task_not_found),
         (5, Task_not_found)],
        [''plan123'' \<mapsto> plan_ab])"
proof -
  have l1: "lookup_item plan_ab 1 ''toString'' = None"
    by (simp add: sample_defs observer_defs key_of_def)
  have l2: "lookup_item plan_ab 1 ''zz'' = None"
    by (simp add: sample_defs observer_defs key_of_def)
  have b1: "deleteTask_txn 1 ''toString'' 2000 (Some plan_ab)
              = Inr ((), plan_ab\<lparr>plan_updatedAt := 2000\<rparr>)"
    by (simp add: deleteTask_txn_def obj_read_def object_prototype_names_def sample_defs
        observer_defs key_of_def fun_upd_idem)
  have b2: "deleteTask_txn 1 ''zz'' 2000 (Some plan_ab) = Inl Task_not_found"
    by (simp add: deleteTask_txn_def obj_read_def object_prototype_names_def sample_defs
        observer_defs key_of_def)
  have r1: "deleteTask ''plan123'' 1 ''toString'' 2000 [''plan123'' \<mapsto> plan_ab]
     = (Inr (), [], [''plan123'' \<mapsto> plan_ab\<lparr>plan_updatedAt := 2000\<rparr>])"
    by (simp add: deleteTask_def runWithRetry_def default_maxRetries_def runTransaction_def
        b1[simplified] eval_nat_numeral)
  have r2: "deleteTask ''plan123'' 1 ''zz'' 2000 [''plan123'' \<mapsto> plan_ab]
     = (Inl (Some Task_not_found),
        [(1, Task_not_found), (2, Task_not_found), (3, Task_not_found), (4, Task_not_found),
         (5, Task_not_found)],
        [''plan123'' \<mapsto> plan_ab])"
    by (simp add: deleteTask_def runWithRetry_def default_maxRetries_def runTransaction_def
        b2[simplified] eval_nat_numeral)
  from l1 l2 r1 r2 show ?thesis by simp
qed




section \<open>Sorting, splicing and renumbering\<close>

lemma mset_js_insert: "mset (js_insert cmp x xs) = add_mset x (mset xs)"
  by (induction xs) auto

lemma mset_js_sort: "mset (js_sort cmp xs) = mset xs"
  by (induction xs) (auto simp: js_sort_def mset_js_insert)

lemma length_js_sort: "length (js_sort cmp xs) = length xs"
  using mset_js_sort[of cmp xs] by (metis size_mset)

lemma mset_splice_insert: "mset (splice_insert i x xs) = add_mset x (mset xs)"
proof -
  have "mset (take k xs) + mset (drop k xs) = mset xs" for k
    by (metis append_take_drop_id mset_append)
  then show ?thesis by (simp add: splice_insert_def Let_def)
qed

lemma splice_insert_beyond: "int (length xs) \<le> i \<Longrightarrow> splice_insert i x xs = xs @ [x]"
  by (simp add: splice_insert_def splice_start_def Let_def min_def)


lemma obj_set_absent: "k \<notin> set (obj_keys r) \<Longrightarrow> obj_set k v r = r @ [(k, v)]"
  by (induction r) (auto simp: obj_keys_def)

lemma foldl_obj_set_distinct:
  assumes step: "\<And>r i t. f r (i, t) = obj_set (key_of t) (U i t) r"
  shows "distinct (map key_of L) \<Longrightarrow>
         set (map key_of L) \<inter> set (obj_keys r) = {} \<Longrightarrow>
         foldl f r (enumerate n L) = r @ map (\<lambda>(i, t). (key_of t, U i t)) (enumerate n L)"
proof (induction L arbitrary: r n)
  case Nil
  then show ?case by simp
next
  case (Cons a L)
  have a: "key_of a \<notin> set (obj_keys r)" using Cons.prems(2) by auto
  have s: "f r (n, a) = r @ [(key_of a, U n a)]"
    by (simp add: step obj_set_absent[OF a])
  have d: "distinct (map key_of L)" using Cons.prems(1) by simp
  have i: "set (map key_of L) \<inter> set (obj_keys (r @ [(key_of a, U n a)])) = {}"
    using Cons.prems by (auto simp: obj_keys_def)
  show ?case
    using Cons.IH[OF d i, of "Suc n"] by (simp add: s)
qed


lemma reorder_moved_distinct:
  "distinct (map key_of L) \<Longrightarrow>
   reorder_moved taskId now L =
     map (\<lambda>(i, t). (key_of t,
            t\<lparr>item := (item t)\<lparr>order := Some (int i),
                 updatedAt := (if item_id (item t) = Some taskId then Some now else updatedAt (item t))\<rparr>\<rparr>))
       (enumerate 0 L)"
  unfolding reorder_moved_def
  by (subst foldl_obj_set_distinct[where U = "\<lambda>i t. t\<lparr>item := (item t)\<lparr>order := Some (int i),
                 updatedAt := (if item_id (item t) = Some taskId then Some now else updatedAt (item t))\<rparr>\<rparr>"])
     (auto simp: reorder_moved_step_def obj_keys_def)


lemma bucket_of_day:
  "tasks (case days plan d of Some existing \<Rightarrow> existing | None \<Rightarrow> new_day planId d) = bucket plan d"
  by (simp add: bucket_def new_day_def split: option.splits)

lemma bucket_items_bucket: "bucket_items plan d = obj_values (bucket plan d)"
  by (simp add: bucket_items_def bucket_def obj_values_def split: option.splits)

lemma bucket_ok_ids: "bucket_ok r \<Longrightarrow> map key_of (obj_values r) = obj_keys r"
  by (induction r) (auto simp: bucket_ok_def obj_values_def obj_keys_def key_of_def)


lemma distinct_ids_mset:
  "mset L = mset L' \<Longrightarrow> distinct (map f L) = distinct (map f L')"
  by (metis mset_eq_imp_distinct_iff mset_map)



lemma reorder_all_snoc:
  "reorder_all (xs @ [t]) = obj_set (key_of t) (set_order (length xs) t) (reorder_all xs)"
  by (simp add: reorder_all_def enumerate_append reorder_step_def set_order_def)


lemma obj_keys_delete: "k \<notin> set (obj_keys (obj_delete k r))"
  by (auto simp: obj_delete_def obj_keys_def)

lemma bucket_ok_get: "bucket_ok r \<Longrightarrow> obj_get r k = Some t \<Longrightarrow> item_id (item t) = Some k"
  by (auto simp: bucket_ok_def obj_get_def list_all_iff dest!: map_of_SomeD)


lemma insert_fresh_distinct:
  assumes ok: "bucket_ok T" and fresh: "taskId \<notin> set (obj_keys T)" and tid: "item_id (item task) = Some taskId"
  shows "distinct (map key_of (splice_insert ti task (js_sort cmp (obj_values T))))"
proof -
  let ?L = "splice_insert ti task (js_sort cmp (obj_values T))"
  have "mset ?L = mset (task # obj_values T)"
    by (simp add: mset_splice_insert mset_js_sort)
  then have "distinct (map key_of ?L) = distinct (map key_of (task # obj_values T))"
    by (rule distinct_ids_mset)
  also have "\<dots>" using ok fresh tid
    by (simp add: bucket_ok_ids[OF ok] key_of_def) (simp add: bucket_ok_def)
  finally show ?thesis .
qed









section \<open>Dense ordering\<close>




section \<open>The item that Add returns\<close>

text \<open>
  Claim C10. When the plan is in the store and the insertion index exceeds the number of
  items in the bucket, \<open>addTaskToDay\<close> succeeds at its first attempt and returns the new
  item with \<open>order\<close> equal to the index it was given, while the plan it has committed
  to the store holds the item with its position after the splice, the former item count,
  as \<open>order\<close>: the returned order exceeds the stored one.
\<close>

theorem addTaskToDay_returned_order_differs:
  assumes "collection planId = Some plan" and "int (length (bucket_items plan d)) < i"
  shows "\<exists>newTask days' plan'.
     addTaskToDay planId d task (Some i) taskId tC tU tD collection
       = (Inr (newTask, days'), [], collection(planId \<mapsto> plan')) \<and>
     days plan' = days' \<and>
     order (item newTask) = Some i \<and>
     stored_order plan' d taskId = Some (int (length (bucket_items plan d))) \<and>
     order (item newTask) \<noteq> stored_order plan' d taskId"
proof -
  define existing where "existing = js_sort cmp_order_or_0 (obj_values (bucket plan d))"
  define newTask where "newTask = task\<lparr>item := (item task)\<lparr>item_id := Some taskId,
                          createdAt := Some tC, updatedAt := Some tU, order := Some i\<rparr>\<rparr>"
  define day where "day = (case days plan d of Some existing \<Rightarrow> existing | None \<Rightarrow> new_day planId d)"
  define days' where "days' = (days plan)(d \<mapsto> day\<lparr>tasks := reorder_all (existing @ [newTask])\<rparr>)"
  define plan' where "plan' = plan\<lparr>days := days', plan_updatedAt := tD\<rparr>"
  have len: "length existing = length (bucket_items plan d)"
    by (simp add: existing_def length_js_sort bucket_items_bucket)
  have sp: "splice_insert i newTask existing = existing @ [newTask]"
    using assms(2) by (simp add: splice_insert_beyond len)
  have body: "addTaskToDay_txn planId d task (Some i) taskId tC tU tD (Some plan)
                = Inr ((newTask, days'), plan')"
    unfolding addTaskToDay_txn_def Let_def bucket_of_day
    by (simp add: existing_def[symmetric] newTask_def[symmetric] sp day_def[symmetric]
        days'_def plan'_def)
  have "runTransaction planId (addTaskToDay_txn planId d task (Some i) taskId tC tU tD) collection
          = (Inr (newTask, days'), collection(planId \<mapsto> plan'))"
    by (simp add: runTransaction_def assms(1) body)
  then have exported: "addTaskToDay planId d task (Some i) taskId tC tU tD collection
       = (Inr (newTask, days'), [], collection(planId \<mapsto> plan'))"
    unfolding addTaskToDay_def default_maxRetries_def
    using runWithRetry_first_success[where n = 4] by (simp add: eval_nat_numeral)
  have "obj_get (reorder_all (existing @ [newTask])) taskId = Some (set_order (length existing) newTask)"
    by (simp add: reorder_all_snoc obj_get_obj_set newTask_def key_of_def)
  then have stored: "stored_order plan' d taskId = Some (int (length (bucket_items plan d)))"
    by (simp add: stored_order_def lookup_item_def plan'_def days'_def len set_order_def)
  have returned: "order (item newTask) = Some i" by (simp add: newTask_def)
  have "days plan' = days'" by (simp add: plan'_def)
  with exported stored returned assms(2) show ?thesis by auto
qed

theorem addTaskToDay_returned_order_differs_witness:
  "[''plan123'' \<mapsto> plan_ab] ''plan123'' = Some plan_ab \<and>
   int (length (bucket_items plan_ab 1)) < 7 \<and>
   (\<exists>newTask days' plan'.
      addTaskToDay ''plan123'' 1 (mk_item TASK '''' None) (Some 7) ''c'' 2000 2000 2001
        [''plan123'' \<mapsto> plan_ab]
        = (Inr (newTask, days'), [], [''plan123'' \<mapsto> plan_ab](''plan123'' \<mapsto> plan')) \<and>
      order (item newTask) = Some 7 \<and> stored_order plan' 1 ''c'' = Some 2)"
proof -
  have p: "[''plan123'' \<mapsto> plan_ab] ''plan123'' = Some plan_ab" by simp
  have h: "int (length (bucket_items plan_ab 1)) < 7"
    by (simp add: sample_defs observer_defs)
  have l: "int (length (bucket_items plan_ab 1)) = 2"
    by (simp add: sample_defs observer_defs)
  show ?thesis
    using p h addTaskToDay_returned_order_differs
      [where collection = "[''plan123'' \<mapsto> plan_ab]" and planId = "''plan123''"
         and plan = plan_ab and d = 1 and i = 7 and task = "mk_item TASK '''' None"
         and taskId = "''c''" and tC = 2000 and tU = 2000 and tD = 2001, OF p h]
    unfolding l by blast
qed

section \<open>Moving a Section to another day\<close>

lemma obj_get_delete_same: "obj_get (obj_delete k r) k = None"
  by (simp add: obj_get_None_iff obj_keys_delete)

lemma keys_of_pairs:
  "map fst (map (\<lambda>(i, t). (key_of t, U i t)) (enumerate n L)) = map key_of L"
  by (induction L arbitrary: n) auto

lemma obj_get_pairs:
  assumes "distinct (map key_of L)" and "t \<in> set L"
  shows "\<exists>i. obj_get (map (\<lambda>(i, t). (key_of t, U i t)) (enumerate 0 L)) (key_of t) = Some (U i t)"
proof -
  from assms(2) obtain i where i: "i < length L" "L ! i = t" by (auto simp: in_set_conv_nth)
  let ?r = "map (\<lambda>(i, t). (key_of t, U i t)) (enumerate 0 L)"
  have k: "map fst ?r = map key_of L"
    by (rule keys_of_pairs)
  have "(i, t) \<in> set (enumerate 0 L)" using i by (auto simp: in_set_enumerate_eq)
  then have "(key_of t, U i t) \<in> set ?r" by force
  moreover have "distinct (map fst ?r)" using assms(1) by (simp only: k)
  ultimately have "map_of ?r (key_of t) = Some (U i t)" by (rule map_of_is_SomeI[rotated])
  then show ?thesis by (auto simp: obj_get_def)
qed

text \<open>
  Claim C1, as the code has it. \<open>moveTask\<close> does not look at the item's type when it
  moves an item to another day. Let the stored plan hold a Section under the id in the
  source day, let the source and the target bucket be well-formed, and let the target
  bucket not hold the id already. Then a move to a different day, with or without indices
  and whatever assignee is given, succeeds at its first attempt and commits a plan in
  which the id is gone from the source bucket and the target bucket holds the item under
  the id: the same item, a Section still, with its assignee and every other field as
  before, except for its new \<open>order\<close> and, when a target index is given, the new
  \<open>updatedAt\<close>.
\<close>

theorem moveTask_moves_sections:
  assumes "collection planId = Some plan" and "src \<noteq> tgt"
    and "lookup_item plan src taskId = Some found" and "type found = Some SECTION"
    and "bucket_ok (bucket plan src)" and "bucket_ok (bucket plan tgt)"
    and "taskId \<notin> set (obj_keys (bucket plan tgt))"
  shows "\<exists>plan' k.
     moveTask planId src tgt taskId assign sourceIndex targetIndex tA tM tD collection
       = (Inr (), [], collection(planId \<mapsto> plan')) \<and>
     lookup_item plan' src taskId = None \<and>
     lookup_item plan' tgt taskId =
       Some (found\<lparr>item := (item found)\<lparr>order := Some k,
               updatedAt := (if targetIndex = None then updatedAt (item found) else Some tM)\<rparr>\<rparr>)"
proof -
  note neq = assms(2) and lk = assms(3) and ty = assms(4) and okS = assms(5)
    and okT = assms(6) and fr = assms(7)
  from lk obtain sourceDay where sd: "days plan src = Some sourceDay"
    and fd: "obj_get (tasks sourceDay) taskId = Some found"
    by (auto simp: lookup_item_def split: option.splits)
  have rd: "obj_read (tasks sourceDay) taskId = Own found" using fd by (rule obj_read_own)
  have bs: "bucket plan src = tasks sourceDay" by (simp add: bucket_def sd)
  have tid: "item_id (item found) = Some taskId" using bucket_ok_get[OF okS[unfolded bs] fd] .
  have kid: "key_of found = taskId" by (simp add: key_of_def tid)
  have na: "(assign \<noteq> None \<and> isAssignableItem found) = False"
    by (simp add: isAssignableItem_def ty)
  have c: "(src = tgt \<and> sourceIndex \<noteq> None \<and> targetIndex \<noteq> None) = False" using neq by simp
  define days1 where "days1 = (days plan)(src \<mapsto> sourceDay\<lparr>tasks := obj_delete taskId (tasks sourceDay)\<rparr>)"
  define targetDay where "targetDay = (case days1 tgt of Some existing \<Rightarrow> existing | None \<Rightarrow> new_day planId tgt)"
  have tT: "tasks targetDay = bucket plan tgt"
    using neq by (auto simp: targetDay_def days1_def bucket_def new_day_def split: option.splits)
  define newTasks where "newTasks = (case targetIndex of
        Some ti \<Rightarrow> reorder_moved taskId tM (splice_insert ti found (js_sort cmp_order_or_0 (obj_values (tasks targetDay))))
      | None \<Rightarrow> obj_set taskId (found\<lparr>item := (item found)\<lparr>order := Some (int (length (obj_keys (tasks targetDay))))\<rparr>\<rparr>) (tasks targetDay))"
  define plan' where "plan' = plan\<lparr>days := days1(tgt \<mapsto> targetDay\<lparr>tasks := newTasks\<rparr>), plan_updatedAt := tD\<rparr>"
  have run: "moveTask_txn planId src tgt taskId assign sourceIndex targetIndex tA tM tD (Some plan) = Inr ((), plan')"
    unfolding moveTask_txn_def Let_def plan'_def newTasks_def targetDay_def days1_def sd rd
      option.case property.case c na if_False
    by (cases targetIndex) simp_all
  have "runTransaction planId
          (moveTask_txn planId src tgt taskId assign sourceIndex targetIndex tA tM tD) collection
          = (Inr (), collection(planId \<mapsto> plan'))"
    by (simp add: runTransaction_def assms(1) run)
  then have exported:
    "moveTask planId src tgt taskId assign sourceIndex targetIndex tA tM tD collection
       = (Inr (), [], collection(planId \<mapsto> plan'))"
    unfolding moveTask_def default_maxRetries_def
    using runWithRetry_first_success[where n = 4] by (simp add: eval_nat_numeral)
  have src': "lookup_item plan' src taskId = None"
    using neq by (simp add: plan'_def lookup_item_def days1_def obj_get_delete_same)
  have "\<exists>k. obj_get newTasks taskId =
          Some (found\<lparr>item := (item found)\<lparr>order := Some k,
               updatedAt := (if targetIndex = None then updatedAt (item found) else Some tM)\<rparr>\<rparr>)"
  proof (cases targetIndex)
    case None
    then show ?thesis
      by (intro exI[of _ "int (length (obj_keys (tasks targetDay)))"])
         (simp add: newTasks_def obj_get_obj_set)
  next
    case (Some ti)
    let ?L = "splice_insert ti found (js_sort cmp_order_or_0 (obj_values (tasks targetDay)))"
    let ?U = "\<lambda>i t. t\<lparr>item := (item t)\<lparr>order := Some (int i),
                 updatedAt := (if item_id (item t) = Some taskId then Some tM else updatedAt (item t))\<rparr>\<rparr>"
    have dL: "distinct (map key_of ?L)"
      unfolding tT using okT fr tid by (rule insert_fresh_distinct)
    have "found \<in># mset ?L" by (simp add: mset_splice_insert)
    then have mem: "found \<in> set ?L" by simp
    from obj_get_pairs[OF dL mem, of ?U] obtain i where
      "obj_get (map (\<lambda>(i, t). (key_of t, ?U i t)) (enumerate 0 ?L)) (key_of found) = Some (?U i found)"
      by blast
    then have "obj_get newTasks taskId = Some (?U i found)"
      by (simp add: newTasks_def Some reorder_moved_distinct[OF dL] kid)
    then show ?thesis by (intro exI[of _ "int i"]) (simp add: Some tid)
  qed
  then obtain k where "lookup_item plan' tgt taskId =
       Some (found\<lparr>item := (item found)\<lparr>order := Some k,
               updatedAt := (if targetIndex = None then updatedAt (item found) else Some tM)\<rparr>\<rparr>)"
    by (auto simp: plan'_def lookup_item_def)
  with exported src' show ?thesis by blast
qed

theorem moveTask_moves_sections_witness:
  "[''plan123'' \<mapsto> plan_s] ''plan123'' = Some plan_s \<and> (0::nat) \<noteq> 1 \<and>
   lookup_item plan_s 0 ''s'' = Some (mk_item SECTION ''s'' (Some 0)) \<and>
   type (mk_item SECTION ''s'' (Some 0)) = Some SECTION \<and>
   bucket_ok (bucket plan_s 0) \<and> bucket_ok (bucket plan_s 1) \<and>
   ''s'' \<notin> set (obj_keys (bucket plan_s 1)) \<and>
   (\<exists>plan' k.
      moveTask ''plan123'' 0 1 ''s'' (Some (Some ''user3'')) (Some 0) (Some 0) 2000 2001 2002
        [''plan123'' \<mapsto> plan_s]
        = (Inr (), [], [''plan123'' \<mapsto> plan_s](''plan123'' \<mapsto> plan')) \<and>
      lookup_item plan' 0 ''s'' = None \<and>
      lookup_item plan' 1 ''s'' =
        Some ((mk_item SECTION ''s'' (Some 0))
               \<lparr>item := (item (mk_item SECTION ''s'' (Some 0)))
                  \<lparr>order := Some k, updatedAt := Some 2001\<rparr>\<rparr>))"
proof -
  have p: "[''plan123'' \<mapsto> plan_s] ''plan123'' = Some plan_s" by simp
  have n: "(0::nat) \<noteq> 1" by simp
  have l: "lookup_item plan_s 0 ''s'' = Some (mk_item SECTION ''s'' (Some 0))"
    by (simp add: sample_defs observer_defs)
  have t: "type (mk_item SECTION ''s'' (Some 0)) = Some SECTION"
    by (simp add: mk_item_def)
  have b0: "bucket_ok (bucket plan_s 0)"
    by (simp add: bucket_ok_def sample_defs observer_defs)
  have b1: "bucket_ok (bucket plan_s 1)"
    by (simp add: bucket_ok_def sample_defs observer_defs)
  have f: "''s'' \<notin> set (obj_keys (bucket plan_s 1))"
    by (simp add: sample_defs observer_defs)
  note inst = moveTask_moves_sections
    [where collection = "[''plan123'' \<mapsto> plan_s]" and src = 0 and tgt = 1 and plan = plan_s
       and taskId = "''s''" and found = "mk_item SECTION ''s'' (Some 0)"
       and planId = "''plan123''" and assign = "Some (Some ''user3'')"
       and sourceIndex = "Some 0" and targetIndex = "Some 0"
       and tA = 2000 and tM = 2001 and tD = 2002, OF p n l t b0 b1 f]
  from inst have "\<exists>plan' k.
      moveTask ''plan123'' 0 1 ''s'' (Some (Some ''user3'')) (Some 0) (Some 0) 2000 2001 2002
        [''plan123'' \<mapsto> plan_s]
        = (Inr (), [], [''plan123'' \<mapsto> plan_s](''plan123'' \<mapsto> plan')) \<and>
      lookup_item plan' 0 ''s'' = None \<and>
      lookup_item plan' 1 ''s'' =
        Some ((mk_item SECTION ''s'' (Some 0))
               \<lparr>item := (item (mk_item SECTION ''s'' (Some 0)))
                  \<lparr>order := Some k, updatedAt := Some 2001\<rparr>\<rparr>)"
    by simp
  with p n l t b0 b1 f show ?thesis by blast
qed

text \<open>
  Claim C1 as stated fails on \<open>moveTask\<close>: the section s of day 0 is moved to day 1 at
  index 0, with an assignee. The move does not fail and the plan is not left unchanged: it
  returns at its first attempt, s is then stored in day 1 with order 0 (u follows with
  order 1), still a Section without assignee, and is no longer in day 0.
\<close>

theorem moveTask_moves_section_across_days:
  "stored_item [''plan123'' \<mapsto> plan_s] ''plan123'' 0 ''s'' = Some (mk_item SECTION ''s'' (Some 0)) \<and>
   fst (moveTask ''plan123'' 0 1 ''s'' (Some (Some ''user3'')) (Some 0) (Some 0) 2000 2001 2002
          [''plan123'' \<mapsto> plan_s]) = Inr () \<and>
   fst (snd (moveTask ''plan123'' 0 1 ''s'' (Some (Some ''user3'')) (Some 0) (Some 0) 2000 2001 2002
          [''plan123'' \<mapsto> plan_s])) = [] \<and>
   stored_item
     (snd (snd (moveTask ''plan123'' 0 1 ''s'' (Some (Some ''user3'')) (Some 0) (Some 0)
                  2000 2001 2002 [''plan123'' \<mapsto> plan_s]))) ''plan123'' 1 ''s''
     = Some ((mk_item SECTION ''s'' (Some 0))
               \<lparr>item := (item (mk_item SECTION ''s'' (Some 0)))
                  \<lparr>order := Some 0, updatedAt := Some 2001\<rparr>\<rparr>) \<and>
   map_option (\<lambda>t. order (item t))
     (stored_item
       (snd (snd (moveTask ''plan123'' 0 1 ''s'' (Some (Some ''user3'')) (Some 0) (Some 0)
                    2000 2001 2002 [''plan123'' \<mapsto> plan_s]))) ''plan123'' 1 ''u'')
     = Some (Some 1) \<and>
   stored_item
     (snd (snd (moveTask ''plan123'' 0 1 ''s'' (Some (Some ''user3'')) (Some 0) (Some 0)
                  2000 2001 2002 [''plan123'' \<mapsto> plan_s]))) ''plan123'' 0 ''s''
     = None"
proof -
  have body: "moveTask_txn ''plan123'' 0 1 ''s'' (Some (Some ''user3'')) (Some 0) (Some 0)
                2000 2001 2002 (Some plan_s)
     = Inr ((), plan_s\<lparr>days :=
         [0 \<mapsto> sample_day 0 [mk_item TASK ''t'' (Some 1)],
          1 \<mapsto> (sample_day 1 [mk_item TASK ''u'' (Some 0)])
                 \<lparr>tasks := [(''s'', (mk_item SECTION ''s'' (Some 0))
                               \<lparr>item := (item (mk_item SECTION ''s'' (Some 0)))
                                  \<lparr>order := Some 0, updatedAt := Some 2001\<rparr>\<rparr>),
                             (''u'', (mk_item TASK ''u'' (Some 0))
                               \<lparr>item := (item (mk_item TASK ''u'' (Some 0)))
                                  \<lparr>order := Some 1\<rparr>\<rparr>)]\<rparr>],
         plan_updatedAt := 2002\<rparr>)"
    by (simp add: moveTask_txn_def sample_defs observer_defs run_defs Let_def fun_upd_twist)
  have exported:
    "moveTask ''plan123'' 0 1 ''s'' (Some (Some ''user3'')) (Some 0) (Some 0) 2000 2001 2002
       [''plan123'' \<mapsto> plan_s]
     = (Inr (), [], [''plan123'' \<mapsto> plan_s\<lparr>days :=
         [0 \<mapsto> sample_day 0 [mk_item TASK ''t'' (Some 1)],
          1 \<mapsto> (sample_day 1 [mk_item TASK ''u'' (Some 0)])
                 \<lparr>tasks := [(''s'', (mk_item SECTION ''s'' (Some 0))
                               \<lparr>item := (item (mk_item SECTION ''s'' (Some 0)))
                                  \<lparr>order := Some 0, updatedAt := Some 2001\<rparr>\<rparr>),
                             (''u'', (mk_item TASK ''u'' (Some 0))
                               \<lparr>item := (item (mk_item TASK ''u'' (Some 0)))
                                  \<lparr>order := Some 1\<rparr>\<rparr>)]\<rparr>],
         plan_updatedAt := 2002\<rparr>])"
    by (simp add: moveTask_def runWithRetry_def default_maxRetries_def eval_nat_numeral
        runTransaction_def body[simplified])
  show ?thesis
    unfolding exported
    by (simp add: stored_item_def lookup_item_def obj_get_def sample_day_def key_of_def
        mk_item_def plan_s_def sample_plan_def)
qed

section \<open>The source day of a cross-day Move\<close>


section \<open>Retry\<close>

lemma retry_loop_same_failure:
  assumes "fn s = (Inl e, s)"
  shows "runWithRetry_loop fn a n lastError warned s =
           (Inl (if n = 0 then lastError else Some e), warned @ map (\<lambda>k. (k, e)) [Suc a..<Suc a + n], s)"
proof (induction n arbitrary: a lastError warned)
  case 0
  show ?case by simp
next
  case (Suc n)
  have "[Suc a..<Suc a + Suc n] = Suc a # [Suc (Suc a)..<Suc (Suc a) + n]"
    by (subst upt_rec) simp
  then show ?case by (simp add: assms Suc.IH)
qed

lemma runWithRetry_same_failure:
  assumes "fn s = (Inl e, s)"
  shows "runWithRetry fn n s = (Inl (if n = 0 then None else Some e), map (\<lambda>k. (k, e)) [1..<Suc n], s)"
  unfolding runWithRetry_def using retry_loop_same_failure[where fn = fn and s = s and e = e and a = 0 and n = n and lastError = None and warned = "[]", OF assms] by simp

lemma five_attempts: "map (\<lambda>k. (k, e)) [1..<Suc default_maxRetries] = logged_five e"
  by (simp add: default_maxRetries_def upt_rec logged_five_def)

lemma five_failures:
  assumes "body (collection planId) = Inl e"
  shows "runWithRetry (runTransaction planId body) default_maxRetries collection
           = (Inl (Some e), logged_five e, collection)"
proof -
  have "runTransaction planId body collection = (Inl e, collection)"
    by (simp add: runTransaction_def assms)
  from runWithRetry_same_failure[where fn = "runTransaction planId body" and s = collection
      and n = default_maxRetries, OF this]
  show ?thesis unfolding five_attempts by (simp add: default_maxRetries_def)
qed

lemma state_before_shift: "state_before fn s (Suc k) = state_before fn (snd (fn s)) k"
  by (induction k) simp_all

lemma attempt_outcome_shift: "attempt_outcome fn s (Suc k) = attempt_outcome fn (snd (fn s)) k"
  by (simp only: attempt_outcome_def state_before_shift)

lemma upt_0_Suc: "[0..<Suc n] = 0 # map Suc [0..<n]"
  by (simp add: upt_conv_Cons map_Suc_upt del: upt_Suc)

lemma retry_loop_all_fail:
  "\<forall>k<n. isl (attempt_outcome fn s k) \<Longrightarrow>
   runWithRetry_loop fn a n lastError warned s =
     (Inl (if n = 0 then lastError else error_of (attempt_outcome fn s (n - 1))),
      warned @ concat (map (\<lambda>k. case attempt_outcome fn s k of
                                   Inl e \<Rightarrow> [(a + k + 1, e)] | Inr _ \<Rightarrow> []) [0..<n]),
      state_before fn s n)"
proof (induction n arbitrary: a lastError warned s)
  case 0
  show ?case by simp
next
  case (Suc n)
  from Suc.prems have "isl (attempt_outcome fn s 0)" by blast
  then obtain e s' where f: "fn s = (Inl e, s')"
    by (cases "fn s") (auto simp: attempt_outcome_def isl_def)
  have sh: "attempt_outcome fn s (Suc k) = attempt_outcome fn s' k" for k
    by (simp add: attempt_outcome_shift f)
  have st: "state_before fn s (Suc n) = state_before fn s' n"
    by (simp only: state_before_shift f snd_conv)
  have a0: "attempt_outcome fn s 0 = Inl e" by (simp add: attempt_outcome_def f)
  have all': "\<forall>k<n. isl (attempt_outcome fn s' k)"
    using Suc.prems sh by (metis Suc_less_eq)
  have last: "(if n = 0 then Some e else error_of (attempt_outcome fn s' (n - 1)))
                = error_of (attempt_outcome fn s n)"
    by (cases n) (simp_all add: a0 error_of_def sh)
  have "runWithRetry_loop fn a (Suc n) lastError warned s =
          runWithRetry_loop fn (a + 1) n (Some e) (warned @ [(a + 1, e)]) s'"
    by (simp add: f)
  also have "\<dots> = (Inl (error_of (attempt_outcome fn s n)),
      (warned @ [(a + 1, e)]) @ concat (map (\<lambda>k. case attempt_outcome fn s' k of
                                   Inl e \<Rightarrow> [(a + 1 + k + 1, e)] | Inr _ \<Rightarrow> []) [0..<n]),
      state_before fn s' n)"
    unfolding Suc.IH[OF all'] last ..
  also have "\<dots> = (Inl (error_of (attempt_outcome fn s n)),
      warned @ concat (map (\<lambda>k. case attempt_outcome fn s k of
                                   Inl e \<Rightarrow> [(a + k + 1, e)] | Inr _ \<Rightarrow> []) [0..<Suc n]),
      state_before fn s (Suc n))"
    unfolding upt_0_Suc st by (simp add: a0 sh comp_def cong: sum.case_cong)
  finally show ?case by simp
qed

lemma retry_loop_first_success:
  "k < n \<Longrightarrow> \<forall>j<k. isl (attempt_outcome fn s j) \<Longrightarrow> attempt_outcome fn s k = Inr v \<Longrightarrow>
   runWithRetry_loop fn a n lastError warned s =
     (Inr v,
      warned @ concat (map (\<lambda>k. case attempt_outcome fn s k of
                                   Inl e \<Rightarrow> [(a + k + 1, e)] | Inr _ \<Rightarrow> []) [0..<k]),
      state_before fn s (Suc k))"
proof (induction k arbitrary: n a lastError warned s)
  case 0
  from 0(1) obtain m where n: "n = Suc m" by (cases n) auto
  from 0(3) obtain s' where f: "fn s = (Inr v, s')"
    by (cases "fn s") (auto simp: attempt_outcome_def)
  show ?case by (simp add: n f)
next
  case (Suc k)
  from Suc.prems(1) obtain m where n: "n = Suc m" and km: "k < m" by (cases n) auto
  from Suc.prems(2) have "isl (attempt_outcome fn s 0)" by blast
  then obtain e s' where f: "fn s = (Inl e, s')"
    by (cases "fn s") (auto simp: attempt_outcome_def isl_def)
  have sh: "attempt_outcome fn s (Suc j) = attempt_outcome fn s' j" for j
    by (simp add: attempt_outcome_shift f)
  have st: "state_before fn s (Suc (Suc k)) = state_before fn s' (Suc k)"
    by (simp only: state_before_shift f snd_conv)
  have a0: "attempt_outcome fn s 0 = Inl e" by (simp add: attempt_outcome_def f)
  have all': "\<forall>j<k. isl (attempt_outcome fn s' j)"
    using Suc.prems(2) sh by (metis Suc_less_eq)
  have ok': "attempt_outcome fn s' k = Inr v" using Suc.prems(3) sh by simp
  have "runWithRetry_loop fn a n lastError warned s =
          runWithRetry_loop fn (a + 1) m (Some e) (warned @ [(a + 1, e)]) s'"
    by (simp add: n f)
  also have "\<dots> = (Inr v,
      (warned @ [(a + 1, e)]) @ concat (map (\<lambda>k. case attempt_outcome fn s' k of
                                   Inl e \<Rightarrow> [(a + 1 + k + 1, e)] | Inr _ \<Rightarrow> []) [0..<k]),
      state_before fn s' (Suc k))"
    by (rule Suc.IH[OF km all' ok'])
  also have "\<dots> = (Inr v,
      warned @ concat (map (\<lambda>k. case attempt_outcome fn s k of
                                   Inl e \<Rightarrow> [(a + k + 1, e)] | Inr _ \<Rightarrow> []) [0..<Suc k]),
      state_before fn s (Suc (Suc k)))"
    unfolding upt_0_Suc st by (simp add: a0 sh comp_def cong: sum.case_cong)
  finally show ?case .
qed

lemma absent_item_not_found:
  assumes "lookup_item plan d taskId = None" and "taskId \<notin> set object_prototype_names"
  shows "updateTask_txn d taskId updates tI tD (Some plan) = Inl Task_not_found"
    and "deleteTask_txn d taskId tD (Some plan) = Inl Task_not_found"
    and "moveTask_txn planId d tgt taskId assign sourceIndex targetIndex tA tM tD (Some plan)
           = Inl Task_not_found"
  using assms
  by (auto simp add: updateTask_txn_def deleteTask_txn_def moveTask_txn_def lookup_item_def
      obj_read_def split: option.splits)

text \<open>
  Claim C5, as the code has it. \<open>runWithRetry\<close> does not look at the error: every
  attempt that throws is logged under its number and followed by another attempt, until
  an attempt returns or the limit is reached.
  \<^item> When each of the \<open>n\<close> attempts throws, \<open>n\<close> attempts are made and logged, and the
    error of the last one is thrown (undefined when the limit is 0).
  \<^item> When attempt \<open>k\<close> (counted from 0, below the limit) is the first that returns, its
    result is returned after the \<open>k\<close> failed attempts were logged, and no further attempt
    is made.
  \<^item> Each of the four operations, on a plan id that is not in the store, is attempted five
    times, each attempt logged and throwing 'Plan not found', before that error is thrown.
  \<^item> Update, Delete and Move of an id that is not in the bucket of the addressed day and
    does not name a property that every object inherits are attempted five times, each
    attempt throwing 'Task not found', before that error is thrown.
  In the last two cases the store is left as it was.
\<close>

theorem runWithRetry_retries_every_error:
  "((\<forall>k<n. isl (attempt_outcome fn s k)) \<longrightarrow>
      runWithRetry fn n s =
        (Inl (if n = 0 then None else error_of (attempt_outcome fn s (n - 1))),
         logged fn s n, state_before fn s n)) \<and>
   (k < n \<and> (\<forall>j<k. isl (attempt_outcome fn s j)) \<and> attempt_outcome fn s k = Inr v \<longrightarrow>
      runWithRetry fn n s = (Inr v, logged fn s k, state_before fn s (Suc k))) \<and>
   (collection planId = None \<longrightarrow>
      addTaskToDay planId d task insertIndex newId tC tU tD collection
        = (Inl (Some Plan_not_found), logged_five Plan_not_found, collection) \<and>
      updateTask planId d taskId updates tI tD collection
        = (Inl (Some Plan_not_found), logged_five Plan_not_found, collection) \<and>
      deleteTask planId d taskId tD collection
        = (Inl (Some Plan_not_found), logged_five Plan_not_found, collection) \<and>
      moveTask planId d tgt taskId assign sourceIndex targetIndex tA tM tD collection
        = (Inl (Some Plan_not_found), logged_five Plan_not_found, collection)) \<and>
   (collection planId = Some plan \<and> lookup_item plan d taskId = None \<and>
    taskId \<notin> set object_prototype_names \<longrightarrow>
      updateTask planId d taskId updates tI tD collection
        = (Inl (Some Task_not_found), logged_five Task_not_found, collection) \<and>
      deleteTask planId d taskId tD collection
        = (Inl (Some Task_not_found), logged_five Task_not_found, collection) \<and>
      moveTask planId d tgt taskId assign sourceIndex targetIndex tA tM tD collection
        = (Inl (Some Task_not_found), logged_five Task_not_found, collection))"
proof (intro conjI impI)
  assume "\<forall>k<n. isl (attempt_outcome fn s k)"
  from retry_loop_all_fail[OF this, of 0 None "[]"]
  show "runWithRetry fn n s =
        (Inl (if n = 0 then None else error_of (attempt_outcome fn s (n - 1))),
         logged fn s n, state_before fn s n)"
    by (simp add: runWithRetry_def logged_def cong: sum.case_cong)
next
  assume "k < n \<and> (\<forall>j<k. isl (attempt_outcome fn s j)) \<and> attempt_outcome fn s k = Inr v"
  then have a: "k < n" and b: "\<forall>j<k. isl (attempt_outcome fn s j)"
    and c: "attempt_outcome fn s k = Inr v" by blast+
  from retry_loop_first_success[OF a b c, of 0 None "[]"]
  show "runWithRetry fn n s = (Inr v, logged fn s k, state_before fn s (Suc k))"
    by (simp add: runWithRetry_def logged_def cong: sum.case_cong)
next
  assume a: "collection planId = None"
  show "addTaskToDay planId d task insertIndex newId tC tU tD collection
        = (Inl (Some Plan_not_found), logged_five Plan_not_found, collection)"
    unfolding addTaskToDay_def by (rule five_failures) (simp add: addTaskToDay_txn_def a)
  show "updateTask planId d taskId updates tI tD collection
        = (Inl (Some Plan_not_found), logged_five Plan_not_found, collection)"
    unfolding updateTask_def by (rule five_failures) (simp add: updateTask_txn_def a)
  show "deleteTask planId d taskId tD collection
        = (Inl (Some Plan_not_found), logged_five Plan_not_found, collection)"
    unfolding deleteTask_def by (rule five_failures) (simp add: deleteTask_txn_def a)
  show "moveTask planId d tgt taskId assign sourceIndex targetIndex tA tM tD collection
        = (Inl (Some Plan_not_found), logged_five Plan_not_found, collection)"
    unfolding moveTask_def by (rule five_failures) (simp add: moveTask_txn_def a)
next
  assume "collection planId = Some plan \<and> lookup_item plan d taskId = None \<and>
    taskId \<notin> set object_prototype_names"
  then have a: "collection planId = Some plan" and b: "lookup_item plan d taskId = None"
    and c: "taskId \<notin> set object_prototype_names" by blast+
  note nf = absent_item_not_found[OF b c]
  show "updateTask planId d taskId updates tI tD collection
        = (Inl (Some Task_not_found), logged_five Task_not_found, collection)"
    unfolding updateTask_def by (rule five_failures) (simp add: a nf)
  show "deleteTask planId d taskId tD collection
        = (Inl (Some Task_not_found), logged_five Task_not_found, collection)"
    unfolding deleteTask_def by (rule five_failures) (simp add: a nf)
  show "moveTask planId d tgt taskId assign sourceIndex targetIndex tA tM tD collection
        = (Inl (Some Task_not_found), logged_five Task_not_found, collection)"
    unfolding moveTask_def by (rule five_failures) (simp add: a nf)
qed

lemma flaky_run:
  "attempt_outcome flaky 0 0 = Inl ''aborted'' \<and> attempt_outcome flaky 0 1 = Inl ''unavailable'' \<and>
   attempt_outcome flaky 0 2 = Inr True \<and>
   state_before flaky 0 2 = 2 \<and> state_before flaky 0 (Suc 2) = 3 \<and>
   logged flaky 0 2 = [(1, ''aborted''), (2, ''unavailable'')]"
  by (simp add: attempt_outcome_def flaky_def logged_def eval_nat_numeral upt_rec)

theorem runWithRetry_retries_every_error_witness:
  "attempt_outcome flaky 0 0 = Inl ''aborted'' \<and>
   attempt_outcome flaky 0 1 = Inl ''unavailable'' \<and>
   runWithRetry flaky 2 0
     = (Inl (Some ''unavailable''), [(1, ''aborted''), (2, ''unavailable'')], 2) \<and>
   (2::nat) < 5 \<and> attempt_outcome flaky 0 2 = Inr True \<and>
   runWithRetry flaky 5 0 = (Inr True, [(1, ''aborted''), (2, ''unavailable'')], 3) \<and>
   (Map.empty :: string \<rightharpoonup> WeekPlan) ''plan123'' = None \<and>
   addTaskToDay ''plan123'' 1 (mk_item TASK '''' None) None ''c'' 2000 2000 2001
     (Map.empty :: string \<rightharpoonup> WeekPlan)
     = (Inl (Some Plan_not_found), logged_five Plan_not_found, Map.empty) \<and>
   [''plan123'' \<mapsto> plan_ab] ''plan123'' = Some plan_ab \<and>
   lookup_item plan_ab 1 ''zz'' = None \<and> ''zz'' \<notin> set object_prototype_names \<and>
   deleteTask ''plan123'' 1 ''zz'' 2000 [''plan123'' \<mapsto> plan_ab]
     = (Inl (Some Task_not_found), logged_five Task_not_found, [''plan123'' \<mapsto> plan_ab])"
proof -
  have all2: "\<forall>k<2. isl (attempt_outcome flaky 0 k)"
  proof (intro allI impI)
    fix k :: nat assume "k < 2"
    then have "k = 0 \<or> k = 1" by auto
    then show "isl (attempt_outcome flaky 0 k)" using flaky_run by auto
  qed
  have third: "attempt_outcome flaky 0 2 = Inr True" using flaky_run by simp
  have lt: "(2::nat) < 5" by simp
  note exhausted = runWithRetry_retries_every_error
    [where fn = flaky and s = 0 and n = 2, THEN conjunct1, rule_format, OF all2[rule_format]]
  note succeeded = runWithRetry_retries_every_error
    [where fn = flaky and s = 0 and n = 5 and k = 2 and v = True,
     THEN conjunct2, THEN conjunct1, rule_format, OF conjI [OF lt conjI [OF all2 third]]]
  have r1: "runWithRetry flaky 2 0
     = (Inl (Some ''unavailable''), [(1, ''aborted''), (2, ''unavailable'')], 2)"
    using exhausted flaky_run by (simp add: error_of_def)
  have r2: "runWithRetry flaky 5 0 = (Inr True, [(1, ''aborted''), (2, ''unavailable'')], 3)"
    using succeeded flaky_run by simp
  have e: "(Map.empty :: string \<rightharpoonup> WeekPlan) ''plan123'' = None" by simp
  have p: "[''plan123'' \<mapsto> plan_ab] ''plan123'' = Some plan_ab" by simp
  have z: "lookup_item plan_ab 1 ''zz'' = None"
    by (simp add: sample_defs observer_defs)
  have i: "''zz'' \<notin> set object_prototype_names"
    by (simp add: object_prototype_names_def)
  note missing_plan = runWithRetry_retries_every_error
    [where collection = "Map.empty :: string \<rightharpoonup> WeekPlan" and planId = "''plan123''" and d = 1
       and task = "mk_item TASK '''' None" and insertIndex = None and newId = "''c''"
       and tC = 2000 and tU = 2000 and tD = 2001,
     THEN conjunct2, THEN conjunct2, THEN conjunct1, rule_format, OF e, THEN conjunct1]
  note missing_item = runWithRetry_retries_every_error
    [where collection = "[''plan123'' \<mapsto> plan_ab]" and planId = "''plan123''" and d = 1
       and plan = plan_ab and taskId = "''zz''" and tD = 2000,
     THEN conjunct2, THEN conjunct2, THEN conjunct2, rule_format,
     OF conjI [OF p conjI [OF z i]], THEN conjunct2, THEN conjunct1]
  have first: "attempt_outcome flaky 0 0 = Inl ''aborted''" using flaky_run by simp
  have second: "attempt_outcome flaky 0 1 = Inl ''unavailable''" using flaky_run by simp
  from first second r1 lt third r2 e missing_plan p z i missing_item show ?thesis by blast
qed

text \<open>
  Claim C5 as stated fails: an Add on a store that has no such plan is not surfaced at
  once; five attempts are made and logged before 'Plan not found' is thrown. Likewise a
  Delete of an id that is not in the bucket: five attempts before 'Task not found'.
\<close>

theorem addTaskToDay_retries_plan_not_found:
  "fst (addTaskToDay ''plan123'' 1 (mk_item TASK '''' None) None ''c'' 2000 2000 2001
          (Map.empty :: string \<rightharpoonup> WeekPlan)) = Inl (Some Plan_not_found) \<and>
   fst (snd (addTaskToDay ''plan123'' 1 (mk_item TASK '''' None) None ''c'' 2000 2000 2001
          (Map.empty :: string \<rightharpoonup> WeekPlan)))
     = [(1, Plan_not_found), (2, Plan_not_found), (3, Plan_not_found), (4, Plan_not_found),
        (5, Plan_not_found)] \<and>
   lookup_item plan_ab 1 ''zz'' = None \<and>
   fst (deleteTask ''plan123'' 1 ''zz'' 2000 [''plan123'' \<mapsto> plan_ab])
     = Inl (Some Task_not_found) \<and>
   fst (snd (deleteTask ''plan123'' 1 ''zz'' 2000 [''plan123'' \<mapsto> plan_ab]))
     = [(1, Task_not_found), (2, Task_not_found), (3, Task_not_found), (4, Task_not_found),
        (5, Task_not_found)]"
proof -
  have z: "lookup_item plan_ab 1 ''zz'' = None"
    by (simp add: sample_defs observer_defs)
  have b: "deleteTask_txn 1 ''zz'' 2000 (Some plan_ab) = Inl Task_not_found"
    by (simp add: deleteTask_txn_def sample_defs observer_defs)
  have add: "fst (addTaskToDay ''plan123'' 1 (mk_item TASK '''' None) None ''c'' 2000 2000 2001
          (Map.empty :: string \<rightharpoonup> WeekPlan)) = Inl (Some Plan_not_found) \<and>
   fst (snd (addTaskToDay ''plan123'' 1 (mk_item TASK '''' None) None ''c'' 2000 2000 2001
          (Map.empty :: string \<rightharpoonup> WeekPlan)))
     = [(1, Plan_not_found), (2, Plan_not_found), (3, Plan_not_found), (4, Plan_not_found),
        (5, Plan_not_found)]"
    by (simp add: addTaskToDay_def runWithRetry_def default_maxRetries_def runTransaction_def
        addTaskToDay_txn_def eval_nat_numeral)
  have del: "fst (deleteTask ''plan123'' 1 ''zz'' 2000 [''plan123'' \<mapsto> plan_ab])
     = Inl (Some Task_not_found) \<and>
   fst (snd (deleteTask ''plan123'' 1 ''zz'' 2000 [''plan123'' \<mapsto> plan_ab]))
     = [(1, Task_not_found), (2, Task_not_found), (3, Task_not_found), (4, Task_not_found),
        (5, Task_not_found)]"
    by (simp add: deleteTask_def runWithRetry_def default_maxRetries_def runTransaction_def
        b[simplified] eval_nat_numeral)
  from z add del show ?thesis by blast
qed

section \<open>Metrics\<close>

lemma foldl_minutes: "foldl (\<lambda>acc task. acc + task_minutes task) a ts = a + sum_list (map task_minutes ts)"
  by (induction ts arbitrary: a) auto

lemma calculateTaskMetrics_spec: "calculateTaskMetrics g = group_metrics_spec g"
  by (simp add: calculateTaskMetrics_def group_metrics_spec_def Let_def foldl_minutes)

text \<open>
  Claim C9. The metrics by owner are those the specification asks for, computed on the
  three groups: the tasks assigned to the user, to the partner, and to nobody. When the
  two identifiers differ and every task is assigned to one of them or to nobody, the three
  groups are disjoint and together hold every task.
\<close>

theorem calculateTaskMetricsByOwner_correct:
  "calculateTaskMetricsByOwner svc ts =
     \<lparr> metrics_user = group_metrics_spec (group_of (Some (userId svc)) ts),
       metrics_partner = group_metrics_spec (group_of (Some (partnerId svc)) ts),
       metrics_unassigned = group_metrics_spec (group_of None ts),
       metrics_all = group_metrics_spec ts \<rparr> \<and>
   (userId svc \<noteq> partnerId svc \<and>
    list_all (\<lambda>t. task_assignedTo t = Some (userId svc) \<or> task_assignedTo t = Some (partnerId svc)
                 \<or> task_assignedTo t = None) ts \<longrightarrow>
      length (group_of (Some (userId svc)) ts) + length (group_of (Some (partnerId svc)) ts)
        + length (group_of None ts) = length ts \<and>
      set (group_of (Some (userId svc)) ts) \<inter> set (group_of (Some (partnerId svc)) ts) = {} \<and>
      set (group_of (Some (userId svc)) ts) \<inter> set (group_of None ts) = {} \<and>
      set (group_of (Some (partnerId svc)) ts) \<inter> set (group_of None ts) = {})"
proof (intro conjI impI)
  show "calculateTaskMetricsByOwner svc ts =
     \<lparr> metrics_user = group_metrics_spec (group_of (Some (userId svc)) ts),
       metrics_partner = group_metrics_spec (group_of (Some (partnerId svc)) ts),
       metrics_unassigned = group_metrics_spec (group_of None ts),
       metrics_all = group_metrics_spec ts \<rparr>"
    by (simp add: calculateTaskMetricsByOwner_def filterTasksByOwner_def group_of_def
        calculateTaskMetrics_spec)
next
  assume a: "userId svc \<noteq> partnerId svc \<and>
    list_all (\<lambda>t. task_assignedTo t = Some (userId svc) \<or> task_assignedTo t = Some (partnerId svc)
                 \<or> task_assignedTo t = None) ts"
  then show "length (group_of (Some (userId svc)) ts) + length (group_of (Some (partnerId svc)) ts)
        + length (group_of None ts) = length ts"
    unfolding group_of_def by (induction ts) auto
  from a show "set (group_of (Some (userId svc)) ts) \<inter> set (group_of (Some (partnerId svc)) ts) = {}"
    by (auto simp: group_of_def)
  show "set (group_of (Some (userId svc)) ts) \<inter> set (group_of None ts) = {}"
    by (auto simp: group_of_def)
  show "set (group_of (Some (partnerId svc)) ts) \<inter> set (group_of None ts) = {}"
    by (auto simp: group_of_def)
qed

theorem calculateTaskMetricsByOwner_correct_witness:
  "userId \<lparr>userId = ''A'', partnerId = ''B''\<rparr> \<noteq> partnerId \<lparr>userId = ''A'', partnerId = ''B''\<rparr> \<and>
   list_all (\<lambda>t. task_assignedTo t = Some ''A'' \<or> task_assignedTo t = Some ''B''
                \<or> task_assignedTo t = None) sample_tasks \<and>
   length (group_of (Some ''A'') sample_tasks) + length (group_of (Some ''B'') sample_tasks)
     + length (group_of None sample_tasks) = length sample_tasks \<and>
   metrics_user (calculateTaskMetricsByOwner \<lparr>userId = ''A'', partnerId = ''B''\<rparr> sample_tasks)
     = \<lparr> totalTasks = 2, completedTasks = 1, totalMinutes = 50, remainingMinutes = 20,
         completionRate = 1 / 2, hoursTotal = 5 / 6, hoursRemaining = 1 / 3 \<rparr>"
proof -
  have h1: "userId \<lparr>userId = ''A'', partnerId = ''B''\<rparr> \<noteq> partnerId \<lparr>userId = ''A'', partnerId = ''B''\<rparr>"
    by simp
  have h2: "list_all (\<lambda>t. task_assignedTo t = Some ''A'' \<or> task_assignedTo t = Some ''B''
                \<or> task_assignedTo t = None) sample_tasks"
    by (simp add: sample_tasks_def)
  note inst = calculateTaskMetricsByOwner_correct
    [where svc = "\<lparr>userId = ''A'', partnerId = ''B''\<rparr>" and ts = sample_tasks]
  have m: "metrics_user (calculateTaskMetricsByOwner \<lparr>userId = ''A'', partnerId = ''B''\<rparr> sample_tasks)
     = group_metrics_spec (group_of (Some ''A'') sample_tasks)"
    using inst [THEN conjunct1] by simp
  have v: "group_metrics_spec (group_of (Some ''A'') sample_tasks)
     = \<lparr> totalTasks = 2, completedTasks = 1, totalMinutes = 50, remainingMinutes = 20,
         completionRate = 1 / 2, hoursTotal = 5 / 6, hoursRemaining = 1 / 3 \<rparr>"
    by (simp add: group_metrics_spec_def group_of_def sample_tasks_def)
  have s: "length (group_of (Some ''A'') sample_tasks) + length (group_of (Some ''B'') sample_tasks)
     + length (group_of None sample_tasks) = length sample_tasks"
    using inst [THEN conjunct2, rule_format] h1 h2 by simp
  from h1 h2 s m v show ?thesis by simp
qed

section \<open>sortTasksByOrder on a day\<close>

lemma foldl_rebuild_distinct:
  "distinct (map key_of L) \<Longrightarrow>
   set (map key_of L) \<inter> set (obj_keys r) = {} \<Longrightarrow>
   foldl (\<lambda>r t. obj_set (key_of t) t r) r L = r @ map (\<lambda>t. (key_of t, t)) L"
proof (induction L arbitrary: r)
  case Nil
  then show ?case by simp
next
  case (Cons a L)
  have a: "key_of a \<notin> set (obj_keys r)" using Cons.prems(2) by auto
  have d: "distinct (map key_of L)" using Cons.prems(1) by simp
  have i: "set (map key_of L) \<inter> set (obj_keys (r @ [(key_of a, a)])) = {}"
    using Cons.prems by (auto simp: obj_keys_def)
  show ?case
    using Cons.IH[OF d i] by (simp add: obj_set_absent[OF a])
qed

lemma rebuild_tasks_distinct:
  "distinct (map key_of L) \<Longrightarrow> rebuild_tasks L = map (\<lambda>t. (key_of t, t)) L"
  unfolding rebuild_tasks_def by (subst foldl_rebuild_distinct) (auto simp: obj_keys_def)

lemma map_set_order_invariant:
  assumes "\<And>i t. f (set_order i t) = f t"
  shows "map f (map (\<lambda>(i, t). set_order i t) (enumerate n B)) = map f B"
  by (induction B arbitrary: n) (auto simp: assms)

lemma mset_map_orderedTaskArray:
  assumes "\<And>i t. f (set_order i t) = f t"
  shows "mset (map f (orderedTaskArray xs)) = mset (map f xs)"
proof -
  have "mset (map f (orderedTaskArray xs)) =
        mset (map f (filter has_order xs)) + mset (map f (filter (\<lambda>t. \<not> has_order t) xs))"
    unfolding orderedTaskArray_eq map_append map_set_order_invariant[of f, OF assms] by simp
  also have "\<dots> = mset (map f xs)"
    by (induction xs) auto
  finally show ?thesis .
qed

lemma item_id_set_order: "item_id (item (set_order i t)) = item_id (item t)"
  by (simp add: set_order_def)

lemma key_of_set_order: "key_of (set_order i t) = key_of t"
  by (simp add: key_of_def set_order_def)

lemma mset_ids_orderedTaskArray:
  "mset (map key_of (orderedTaskArray xs)) = mset (map key_of xs)"
  by (rule mset_map_orderedTaskArray) (rule key_of_set_order)

lemma bucket_ok_values:
  "bucket_ok r \<Longrightarrow> t \<in> set (obj_values r) \<Longrightarrow> item_id (item t) = Some (key_of t)"
  by (auto simp: bucket_ok_def obj_values_def list_all_iff key_of_def)

lemma orderedTaskArray_keeps_ids:
  assumes "\<And>t. t \<in> set xs \<Longrightarrow> item_id (item t) = Some (key_of t)"
    and "t \<in> set (orderedTaskArray xs)"
  shows "item_id (item t) = Some (key_of t)"
proof -
  let ?f = "\<lambda>t. item_id (item t) = Some (key_of t)"
  have "mset (map ?f (orderedTaskArray xs)) = mset (map ?f xs)"
    by (rule mset_map_orderedTaskArray) (simp add: item_id_set_order key_of_set_order)
  then have "set (map ?f (orderedTaskArray xs)) = set (map ?f xs)"
    by (rule mset_eq_setD)
  moreover have "?f t \<in> set (map ?f (orderedTaskArray xs))" using assms(2) by simp
  ultimately have "?f t \<in> set (map ?f xs)" by simp
  then show ?thesis using assms(1) by auto
qed

lemma sortTasksByOrder_day_tasks:
  assumes "bucket_ok (tasks day)"
  shows "tasks (sortTasksByOrder_day day) =
           map (\<lambda>t. (key_of t, t)) (orderedTaskArray (obj_values (tasks day)))"
proof -
  have "distinct (map key_of (orderedTaskArray (obj_values (tasks day))))
        = distinct (map key_of (obj_values (tasks day)))"
    using mset_ids_orderedTaskArray by (rule mset_eq_imp_distinct_iff)
  also have "\<dots>" using assms by (simp add: bucket_ok_ids[OF assms]) (simp add: bucket_ok_def)
  finally show ?thesis by (simp add: sortTasksByOrder_day_def rebuild_tasks_distinct)
qed

lemma obj_values_pairs: "obj_values (map (\<lambda>t. (f t, t)) L) = L"
  by (simp add: obj_values_def comp_def)

lemma bucket_ok_pairs:
  "distinct (map key_of L) \<Longrightarrow> (\<And>t. t \<in> set L \<Longrightarrow> item_id (item t) = Some (key_of t)) \<Longrightarrow>
   bucket_ok (map (\<lambda>t. (key_of t, t)) L)"
  by (simp add: bucket_ok_def obj_keys_def comp_def list_all_iff)

lemma orderedTaskArray_has_orders: "list_all has_order (orderedTaskArray xs)"
  unfolding orderedTaskArray_eq
  by (auto simp: list_all_iff has_order_def set_order_def in_set_enumerate_eq)

lemma sort_key_fixed_iff: "sort_key f ys = ys \<longleftrightarrow> sorted (map f ys)"
proof
  assume "sort_key f ys = ys"
  then have "map f ys = map f (sort_key f ys)" by simp
  then show "sorted (map f ys)" by (simp only: sorted_sort_key)
next
  assume "sorted (map f ys)"
  then show "sort_key f ys = ys" by (rule sort_key_id_if_sorted)
qed

text \<open>
  Claim C3, as the code has it. The array that \<open>sortTasksByOrder\<close> builds for a day holds
  the same items: first the items that have an \<open>order\<close>, stably sorted by it and each
  keeping the value it had; then the items that lack one, in their original relative
  order, each given its position in the array as \<open>order\<close>. The existing values are not
  renumbered. For a well-formed bucket the day's new dictionary holds exactly this array,
  each item under its id, in this sequence.
\<close>

theorem sortTasksByOrder_array_characterised:
  "orderedTaskArray xs =
     sort_key order_of (filter has_order xs) @
     map (\<lambda>(i, t). set_order i t)
       (enumerate (length (filter has_order xs)) (filter (\<lambda>t. \<not> has_order t) xs)) \<and>
   (bucket_ok (tasks day) \<longrightarrow>
      obj_values (tasks (sortTasksByOrder_day day)) = orderedTaskArray (obj_values (tasks day)) \<and>
      obj_keys (tasks (sortTasksByOrder_day day))
        = map key_of (orderedTaskArray (obj_values (tasks day))))"
proof (intro conjI impI)
  show "orderedTaskArray xs =
     sort_key order_of (filter has_order xs) @
     map (\<lambda>(i, t). set_order i t)
       (enumerate (length (filter has_order xs)) (filter (\<lambda>t. \<not> has_order t) xs))"
    by (rule orderedTaskArray_eq)
next
  assume ok: "bucket_ok (tasks day)"
  show "obj_values (tasks (sortTasksByOrder_day day)) = orderedTaskArray (obj_values (tasks day))"
    by (simp add: sortTasksByOrder_day_tasks[OF ok] obj_values_pairs)
  show "obj_keys (tasks (sortTasksByOrder_day day))
        = map key_of (orderedTaskArray (obj_values (tasks day)))"
    by (simp add: sortTasksByOrder_day_tasks[OF ok] obj_keys_def comp_def)
qed

theorem sortTasksByOrder_array_characterised_witness:
  "bucket_ok (tasks day_unordered) \<and>
   map id_and_order (obj_values (tasks (sortTasksByOrder_day day_unordered)))
     = [(''task2'', Some 0), (''task1'', Some 2), (''task3'', Some 2)]"
proof -
  have ok: "bucket_ok (tasks day_unordered)"
    by (simp add: bucket_ok_def day_unordered_def sample_day_def key_of_def mk_item_def obj_keys_def)
  have v: "map id_and_order (orderedTaskArray (obj_values (tasks day_unordered)))
     = [(''task2'', Some 0), (''task1'', Some 2), (''task3'', Some 2)]"
    by (simp add: orderedTaskArray_def js_sort_def cmp_order_def fill_order_def id_and_order_def
        day_unordered_def sample_day_def key_of_def mk_item_def obj_values_def)
  from sortTasksByOrder_array_characterised
         [where day = day_unordered, THEN conjunct2, rule_format, OF ok, THEN conjunct1]
  have "obj_values (tasks (sortTasksByOrder_day day_unordered))
          = orderedTaskArray (obj_values (tasks day_unordered))" .
  with ok v show ?thesis by simp
qed

text \<open>
  Claim C3 as stated fails: on the day of the repository's own test (orders 2, 0 and a
  missing one) the output carries the orders 0, 2, 2, which are not exactly 0..2.
\<close>

theorem sortTasksByOrder_orders_not_exact:
  "\<not> orders_exact (obj_values (tasks (sortTasksByOrder_day day_unordered)))"
  by (simp add: orders_exact_def sortTasksByOrder_day_def rebuild_tasks_def orderedTaskArray_def
      js_sort_def cmp_order_def fill_order_def day_unordered_def sample_day_def key_of_def mk_item_def
      has_order_def order_of_def obj_values_def)

text \<open>
  Claim C8, as the code has it. Every item of the normalizer's output has an \<open>order\<close>,
  so a second run only sorts it: running the normalizer twice gives the same list as
  running it once exactly when the output of the first run is sorted by \<open>order\<close>. This is
  so on a list whose order values are exactly 0..N-1; and on a day whose well-formed
  bucket has such order values, running \<open>sortTasksByOrder\<close> on the day twice gives the
  same day as running it once.
\<close>

theorem sortTasksByOrder_twice_on_exact:
  "(orderedTaskArray (orderedTaskArray xs) = orderedTaskArray xs
      \<longleftrightarrow> sorted (map order_of (orderedTaskArray xs))) \<and>
   (orders_exact xs \<longrightarrow> orderedTaskArray (orderedTaskArray xs) = orderedTaskArray xs) \<and>
   (bucket_ok (tasks day) \<and> orders_exact (obj_values (tasks day)) \<longrightarrow>
      sortTasksByOrder_day (sortTasksByOrder_day day) = sortTasksByOrder_day day)"
proof (intro conjI impI)
  show "orderedTaskArray (orderedTaskArray xs) = orderedTaskArray xs
      \<longleftrightarrow> sorted (map order_of (orderedTaskArray xs))"
    by (simp only: orderedTaskArray_all_ordered[OF orderedTaskArray_has_orders] sort_key_fixed_iff)
next
  assume "orders_exact xs"
  then show "orderedTaskArray (orderedTaskArray xs) = orderedTaskArray xs"
    by (rule orderedTaskArray_twice)
next
  assume a: "bucket_ok (tasks day) \<and> orders_exact (obj_values (tasks day))"
  then have ok: "bucket_ok (tasks day)" and ex: "orders_exact (obj_values (tasks day))" by blast+
  let ?L = "orderedTaskArray (obj_values (tasks day))"
  have t1: "tasks (sortTasksByOrder_day day) = map (\<lambda>t. (key_of t, t)) ?L"
    using ok by (rule sortTasksByOrder_day_tasks)
  have "distinct (map key_of ?L) = distinct (map key_of (obj_values (tasks day)))"
    using mset_ids_orderedTaskArray by (rule mset_eq_imp_distinct_iff)
  then have dL: "distinct (map key_of ?L)"
    using ok by (simp add: bucket_ok_ids[OF ok]) (simp add: bucket_ok_def)
  have ids: "item_id (item t) = Some (key_of t)" if "t \<in> set ?L" for t
    using bucket_ok_values[OF ok] that by (rule orderedTaskArray_keeps_ids)
  have ok2: "bucket_ok (tasks (sortTasksByOrder_day day))"
    unfolding t1 using dL ids by (rule bucket_ok_pairs)
  have "tasks (sortTasksByOrder_day (sortTasksByOrder_day day)) =
          map (\<lambda>t. (key_of t, t)) (orderedTaskArray ?L)"
    using sortTasksByOrder_day_tasks[OF ok2] by (simp add: t1 obj_values_pairs)
  also have "\<dots> = tasks (sortTasksByOrder_day day)"
    by (simp add: orderedTaskArray_twice[OF ex] t1)
  finally show "sortTasksByOrder_day (sortTasksByOrder_day day) = sortTasksByOrder_day day"
    by (simp add: sortTasksByOrder_day_def)
qed

theorem sortTasksByOrder_twice_on_exact_witness:
  "orders_exact [mk_item TASK ''a'' (Some 1), mk_item SECTION ''b'' (Some 0)] \<and>
   orderedTaskArray (orderedTaskArray [mk_item TASK ''a'' (Some 1), mk_item SECTION ''b'' (Some 0)])
     = orderedTaskArray [mk_item TASK ''a'' (Some 1), mk_item SECTION ''b'' (Some 0)] \<and>
   bucket_ok (tasks day_ab) \<and> orders_exact (obj_values (tasks day_ab)) \<and>
   sortTasksByOrder_day (sortTasksByOrder_day day_ab) = sortTasksByOrder_day day_ab"
proof -
  have h: "orders_exact [mk_item TASK ''a'' (Some 1), mk_item SECTION ''b'' (Some 0)]"
    by (simp add: orders_exact_def has_order_def order_of_def mk_item_def)
  have ok: "bucket_ok (tasks day_ab)"
    by (simp add: bucket_ok_def day_ab_def sample_day_def key_of_def mk_item_def obj_keys_def)
  have ex: "orders_exact (obj_values (tasks day_ab))"
    by (simp add: orders_exact_def has_order_def order_of_def day_ab_def sample_day_def
        key_of_def mk_item_def obj_values_def)
  note list_level = sortTasksByOrder_twice_on_exact
    [where xs = "[mk_item TASK ''a'' (Some 1), mk_item SECTION ''b'' (Some 0)]",
     THEN conjunct2, THEN conjunct1, rule_format, OF h]
  note day_level = sortTasksByOrder_twice_on_exact
    [where day = day_ab, THEN conjunct2, THEN conjunct2, rule_format, OF conjI [OF ok ex]]
  from h ok ex list_level day_level show ?thesis by blast
qed

text \<open>
  Claim C8 as stated fails in its last clause: the normalizer is not idempotent on its own
  output. On a (order 5) and b (no order) it gives a (5), b (1), whose order values are
  not sorted; a second run gives b (1), a (5). The same on the day that holds the two
  items: the second run changes the sequence of the bucket.
\<close>

theorem sortTasksByOrder_not_idempotent:
  "map id_and_order (orderedTaskArray [mk_item TASK ''a'' (Some 5), mk_item TASK ''b'' None])
     = [(''a'', Some 5), (''b'', Some 1)] \<and>
   map id_and_order
     (orderedTaskArray (orderedTaskArray [mk_item TASK ''a'' (Some 5), mk_item TASK ''b'' None]))
     = [(''b'', Some 1), (''a'', Some 5)] \<and>
   orderedTaskArray (orderedTaskArray [mk_item TASK ''a'' (Some 5), mk_item TASK ''b'' None])
     \<noteq> orderedTaskArray [mk_item TASK ''a'' (Some 5), mk_item TASK ''b'' None] \<and>
   map id_and_order (obj_values (tasks (sortTasksByOrder_day day_gap)))
     = [(''a'', Some 5), (''b'', Some 1)] \<and>
   map id_and_order (obj_values (tasks (sortTasksByOrder_day (sortTasksByOrder_day day_gap))))
     = [(''b'', Some 1), (''a'', Some 5)] \<and>
   sortTasksByOrder_day (sortTasksByOrder_day day_gap) \<noteq> sortTasksByOrder_day day_gap"
proof -
  have once: "orderedTaskArray [mk_item TASK ''a'' (Some 5), mk_item TASK ''b'' None]
     = [mk_item TASK ''a'' (Some 5), mk_item TASK ''b'' (Some 1)]"
    by (simp add: orderedTaskArray_def js_sort_def cmp_order_def fill_order_def mk_item_def)
  have twice: "orderedTaskArray [mk_item TASK ''a'' (Some 5), mk_item TASK ''b'' (Some 1)]
     = [mk_item TASK ''b'' (Some 1), mk_item TASK ''a'' (Some 5)]"
    by (simp add: orderedTaskArray_def js_sort_def cmp_order_def fill_order_def mk_item_def)
  have day_once: "tasks (sortTasksByOrder_day day_gap)
     = [(''a'', mk_item TASK ''a'' (Some 5)), (''b'', mk_item TASK ''b'' (Some 1))]"
    by (simp add: sortTasksByOrder_day_def rebuild_tasks_def day_gap_def sample_day_def
        obj_values_def comp_def once)
       (simp add: key_of_def mk_item_def)
  have day_twice: "tasks (sortTasksByOrder_day (sortTasksByOrder_day day_gap))
     = [(''b'', mk_item TASK ''b'' (Some 1)), (''a'', mk_item TASK ''a'' (Some 5))]"
    by (simp add: sortTasksByOrder_day_def[of "sortTasksByOrder_day day_gap"] rebuild_tasks_def
        day_once obj_values_def twice)
       (simp add: key_of_def mk_item_def)
  have differ: "sortTasksByOrder_day (sortTasksByOrder_day day_gap) \<noteq> sortTasksByOrder_day day_gap"
  proof
    assume "sortTasksByOrder_day (sortTasksByOrder_day day_gap) = sortTasksByOrder_day day_gap"
    then have "tasks (sortTasksByOrder_day (sortTasksByOrder_day day_gap))
                 = tasks (sortTasksByOrder_day day_gap)" by simp
    then show False unfolding day_once day_twice by simp
  qed
  show ?thesis
    unfolding once twice day_once day_twice
    using differ by (simp add: id_and_order_def key_of_def mk_item_def obj_values_def)
qed


end
